theory Spec2Isabelle
  imports Main
begin

section \<open>Data model of \<^verbatim>\<open>src/contexts/AuthContext.tsx\<close>\<close>

text \<open>
  JavaScript strings are modelled as \<^typ>\<open>string\<close>; a value that may be \<^verbatim>\<open>null\<close> or
  \<^verbatim>\<open>undefined\<close> is an \<^typ>\<open>'a option\<close> (the two are not told apart). The role of a
  profile row is a plain string: \<^verbatim>\<open>role as UserRole\<close> is a cast that nothing checks at
  run time. The non-null assertion \<^verbatim>\<open>supabaseUser.email!\<close> is erased by the compiler, so
  the e-mail address stays optional.
\<close>

record authenticated_user =
  au_id :: string
  au_email :: "string option"
  au_voterId :: "string option"
  au_precinct :: "string option"
  au_username :: string
  au_role :: string
  au_registrationStatus :: "string option"

text \<open>The identity (\<^verbatim>\<open>User\<close> of the identity service) and its session.\<close>

record sb_user =
  su_id :: string
  su_email :: "string option"
  su_metadata_username :: "string option"

record session =
  sess_user :: sb_user
  expires_at :: "int option"

text \<open>What the remote services answer. A call either returns or rejects (\<open>Throws\<close>, with the
  message of the error when it has one).\<close>

datatype 'a js_result = Throws "string option" | Returns 'a

record pg_error =
  pg_code :: string
  pg_message :: string

record 'a query_response =
  qr_data :: "'a option"
  qr_error :: "pg_error option"

record app_user_row =
  row_role :: string
  row_username :: "string option"

record app_user_insert =
  ins_auth_id :: string
  ins_email :: "string option"
  ins_username :: string
  ins_role :: string

record refresh_response =
  refreshed_session :: "session option"
  refresh_error :: "string option"

record application =
  application_type :: string
  app_status :: "string option"

record voter_record =
  voter_id :: "string option"
  precinct_number :: "string option"

text \<open>A joined relation comes back as \<^verbatim>\<open>null\<close>, as one object or as an array.\<close>

datatype 'a relation = Rel_null | Rel_one 'a | Rel_many "'a list"

record applicant_data =
  ad_application :: "application relation"
  ad_voter_record :: "voter_record relation"

record toast =
  t_title :: string
  t_description :: string
  t_destructive :: bool

text \<open>
  Everything a reconciliation pass does that can be seen from outside, in the order in which
  it happens: the remote calls it makes, the users it publishes (\<^verbatim>\<open>setUser\<close>) and the
  notifications it shows (\<^verbatim>\<open>toast\<close>). Console output is left out.
\<close>

datatype effect =
    RefreshSession
  | SignOut
  | SelectAppUser string
  | InsertAppUser app_user_insert
  | SelectApplicant string
  | SetUser "authenticated_user option"
  | ShowToast toast

record hs_outcome =
  returned :: "authenticated_user option"
  effects :: "effect list"

text \<open>The answers of the remote services to the calls of one pass (each call site runs at
  most once in a pass).\<close>

record hs_env =
  refreshSession_result :: "refresh_response js_result"
  signOut_result :: "unit js_result"
  fetch_result :: "app_user_row query_response js_result"
  create_result :: "app_user_row query_response js_result"
  refetch_result :: "app_user_row query_response js_result"
  applicant_result :: "applicant_data query_response js_result"

section \<open>JavaScript helpers\<close>

definition truthy :: "string option \<Rightarrow> bool" where
  "truthy x = (case x of None \<Rightarrow> False | Some s \<Rightarrow> s \<noteq> [])"

text \<open>\<^verbatim>\<open>a || b\<close> on optional strings, and \<^verbatim>\<open>a || ''\<close>.\<close>

definition js_or :: "string option \<Rightarrow> string option \<Rightarrow> string option" where
  "js_or a b = (if truthy a then a else b)"

definition or_empty :: "string option \<Rightarrow> string" where
  "or_empty a = (case a of None \<Rightarrow> [] | Some s \<Rightarrow> s)"

definition startsWith :: "string \<Rightarrow> string \<Rightarrow> bool" where
  "startsWith s p = (take (length p) s = p)"

fun str_includes :: "string \<Rightarrow> string \<Rightarrow> bool" where
  "str_includes [] p = (p = [])"
| "str_includes (c # cs) p = (startsWith (c # cs) p \<or> str_includes cs p)"

section \<open>\<^verbatim>\<open>handleSession\<close>: one reconciliation pass\<close>

definition unexpected_toast :: toast where
  "unexpected_toast = \<lparr>t_title = ''Unexpected Error'',
     t_description = ''An unexpected error occurred while loading your profile.'',
     t_destructive = True\<rparr>"

definition create_failed_toast :: toast where
  "create_failed_toast = \<lparr>t_title = ''Error'',
     t_description = ''Could not create user profile. Please try again.'',
     t_destructive = True\<rparr>"

definition fetch_failed_toast :: toast where
  "fetch_failed_toast = \<lparr>t_title = ''Error'',
     t_description = ''Could not fetch user profile.'',
     t_destructive = True\<rparr>"

text \<open>\<^verbatim>\<open>setUser(u); return u;\<close> after the effects \<open>sofar\<close>.\<close>

definition publish :: "effect list \<Rightarrow> authenticated_user option \<Rightarrow> hs_outcome" where
  "publish sofar u = \<lparr>returned = u, effects = sofar @ [SetUser u]\<rparr>"

text \<open>The \<^verbatim>\<open>catch (unexpectedError)\<close> block: it shows its notification whatever the
  password-update flag says.\<close>

definition unexpected_error :: "effect list \<Rightarrow> hs_outcome" where
  "unexpected_error sofar = publish (sofar @ [ShowToast unexpected_toast]) None"

text \<open>\<^verbatim>\<open>if (!isPasswordUpdateFlow) { toast(t) }\<close>\<close>

definition toast_unless :: "bool \<Rightarrow> toast \<Rightarrow> effect list" where
  "toast_unless isPasswordUpdateFlow t = (if \<not> isPasswordUpdateFlow then [ShowToast t] else [])"

definition metadata_username :: "sb_user \<Rightarrow> string" where
  "metadata_username su = or_empty (su_metadata_username su)"

text \<open>The object literal \<^verbatim>\<open>tempUser\<close> (written three times in the source, the same each
  time).\<close>

definition tempUser :: "sb_user \<Rightarrow> authenticated_user" where
  "tempUser su = \<lparr>au_id = su_id su, au_email = su_email su, au_voterId = None,
     au_precinct = None, au_username = metadata_username su, au_role = ''public'',
     au_registrationStatus = None\<rparr>"

definition existingAuthUser :: "sb_user \<Rightarrow> app_user_row \<Rightarrow> authenticated_user" where
  "existingAuthUser su existingUser = \<lparr>au_id = su_id su, au_email = su_email su,
     au_voterId = None, au_precinct = None,
     au_username = or_empty (row_username existingUser),
     au_role = row_role existingUser, au_registrationStatus = None\<rparr>"

definition newUser :: "sb_user \<Rightarrow> app_user_row \<Rightarrow> authenticated_user" where
  "newUser su createdUser = \<lparr>au_id = su_id su, au_email = su_email su,
     au_voterId = None, au_precinct = None,
     au_username = or_empty (row_username createdUser),
     au_role = row_role createdUser, au_registrationStatus = None\<rparr>"

text \<open>The row that \<^verbatim>\<open>.insert({...})\<close> sends to the profile store.\<close>

definition new_profile :: "sb_user \<Rightarrow> app_user_insert" where
  "new_profile su = \<lparr>ins_auth_id = su_id su, ins_email = su_email su,
     ins_username = metadata_username su, ins_role = ''public''\<rparr>"

text \<open>
  The expiry check. \<^verbatim>\<open>session.expires_at && session.expires_at < Date.now() / 1000\<close>:
  an absent or zero expiry is falsy; \<open>now\<close> is \<^verbatim>\<open>Date.now()\<close>, in milliseconds, and
  dividing by 1000 is written as a multiplication on the other side.
\<close>

definition session_expired :: "int \<Rightarrow> session \<Rightarrow> bool" where
  "session_expired now sess =
     (case expires_at sess of None \<Rightarrow> False | Some e \<Rightarrow> e \<noteq> 0 \<and> e * 1000 < now)"

text \<open>
  The refresh step: \<open>Inl\<close> is a pass that ended here, \<open>Inr\<close> carries the session variable
  and the effects so far. The source reassigns \<^verbatim>\<open>session\<close> to the refreshed session, but
  \<^verbatim>\<open>supabaseUser\<close> was bound before and is what the rest of the pass reads.
\<close>

definition refresh_step :: "hs_env \<Rightarrow> int \<Rightarrow> session \<Rightarrow> hs_outcome + (session \<times> effect list)" where
  "refresh_step env now sess =
     (if session_expired now sess then
        (case refreshSession_result env of
           Throws e \<Rightarrow> Inl (unexpected_error [RefreshSession])
         | Returns r \<Rightarrow>
             (case refresh_error r of
                Some refreshError \<Rightarrow>
                  (case signOut_result env of
                     Throws e \<Rightarrow> Inl (unexpected_error [RefreshSession, SignOut])
                   | Returns u \<Rightarrow> Inl (publish [RefreshSession, SignOut] None))
              | None \<Rightarrow>
                  (case refreshed_session r of
                     Some s' \<Rightarrow> Inr (s', [RefreshSession])
                   | None \<Rightarrow> Inr (sess, [RefreshSession]))))
      else Inr (sess, []))"

text \<open>
  The branch for \<^verbatim>\<open>fetchError.code === 'PGRST116'\<close>: create the profile row. Reading
  \<^verbatim>\<open>createdUser.username\<close> or \<^verbatim>\<open>existingUser.username\<close> of a \<^verbatim>\<open>null\<close> row is a
  TypeError, which the catch block receives.
\<close>

definition create_profile :: "hs_env \<Rightarrow> bool \<Rightarrow> sb_user \<Rightarrow> effect list \<Rightarrow> hs_outcome" where
  "create_profile env isPasswordUpdateFlow su sofar =
     (let sofar1 = sofar @ [InsertAppUser (new_profile su)] in
      case create_result env of
        Throws e \<Rightarrow> unexpected_error sofar1
      | Returns cr \<Rightarrow>
          (case qr_error cr of
             Some createError \<Rightarrow>
               if pg_code createError = ''23505'' then
                 (let sofar2 = sofar1 @ [SelectAppUser (su_id su)] in
                  case refetch_result env of
                    Throws e \<Rightarrow> unexpected_error sofar2
                  | Returns rr \<Rightarrow>
                      (case qr_error rr of
                         Some refetchError \<Rightarrow> publish sofar2 None
                       | None \<Rightarrow>
                           (case qr_data rr of
                              None \<Rightarrow> unexpected_error sofar2
                            | Some existingUser \<Rightarrow>
                                publish sofar2 (Some (existingAuthUser su existingUser)))))
               else if pg_code createError = ''42501'' then
                 publish sofar1 (Some (tempUser su))
               else
                 publish (sofar1 @ toast_unless isPasswordUpdateFlow create_failed_toast) None
           | None \<Rightarrow>
               (case qr_data cr of
                  None \<Rightarrow> unexpected_error sofar1
                | Some createdUser \<Rightarrow> publish sofar1 (Some (newUser su createdUser)))))"

text \<open>The best-effort read of the applicant record: registration status, voter id and
  precinct. Its own \<^verbatim>\<open>try/catch\<close> swallows a rejected call.\<close>

definition applicant_fields ::
  "applicant_data query_response js_result \<Rightarrow> string option \<times> string option \<times> string option" where
  "applicant_fields res =
     (case res of
        Throws e \<Rightarrow> (None, None, None)
      | Returns r \<Rightarrow>
          (case qr_error r of
             Some applicantError \<Rightarrow> (None, None, None)
           | None \<Rightarrow>
               (case qr_data r of
                  None \<Rightarrow> (None, None, None)
                | Some applicantData \<Rightarrow>
                    (let applications =
                           (case ad_application applicantData of
                              Rel_many xs \<Rightarrow> xs | Rel_one x \<Rightarrow> [x] | Rel_null \<Rightarrow> []);
                         registrationApp =
                           find (\<lambda>app. application_type app = ''register'') applications;
                         registrationStatus =
                           (case registrationApp of
                              None \<Rightarrow> None
                            | Some app \<Rightarrow> js_or (app_status app) None);
                         voterRecord =
                           (case ad_voter_record applicantData of
                              Rel_many xs \<Rightarrow> (case xs of [] \<Rightarrow> None | x # rest \<Rightarrow> Some x)
                            | Rel_one x \<Rightarrow> Some x
                            | Rel_null \<Rightarrow> None)
                     in (registrationStatus,
                         Option.bind voterRecord voter_id,
                         Option.bind voterRecord precinct_number)))))"

definition authenticatedUser ::
  "sb_user \<Rightarrow> app_user_row \<Rightarrow> string option \<times> string option \<times> string option \<Rightarrow> authenticated_user" where
  "authenticatedUser su appUser regs =
     (case regs of (registrationStatus, voterId, precinct) \<Rightarrow>
        \<lparr>au_id = su_id su, au_email = su_email su, au_voterId = voterId,
         au_precinct = precinct,
         au_username = or_empty (js_or (row_username appUser) (su_metadata_username su)),
         au_role = row_role appUser, au_registrationStatus = registrationStatus\<rparr>)"

text \<open>
  \<^verbatim>\<open>handleSession(session)\<close>. \<open>isPasswordUpdateFlow\<close> is the value of the state variable
  that the memoised callback closed over (its dependency list is \<^verbatim>\<open>[toast]\<close>), \<open>now\<close> is
  \<^verbatim>\<open>Date.now()\<close>.
\<close>

definition handleSession :: "hs_env \<Rightarrow> bool \<Rightarrow> int \<Rightarrow> session option \<Rightarrow> hs_outcome" where
  "handleSession env isPasswordUpdateFlow now session =
     (case session of
        None \<Rightarrow> publish [] None
      | Some sess \<Rightarrow>
          (let supabaseUser = sess_user sess in
           case refresh_step env now sess of
             Inl out \<Rightarrow> out
           | Inr (session', sofar) \<Rightarrow>
               (let sofar1 = sofar @ [SelectAppUser (su_id supabaseUser)] in
                case fetch_result env of
                  Throws e \<Rightarrow> unexpected_error sofar1
                | Returns fr \<Rightarrow>
                    (case qr_error fr of
                       Some fetchError \<Rightarrow>
                         if pg_code fetchError = ''PGRST116'' then
                           create_profile env isPasswordUpdateFlow supabaseUser sofar1
                         else if pg_code fetchError = ''406''
                                 \<or> str_includes (pg_message fetchError) ''Not Acceptable'' then
                           publish sofar1 (Some (tempUser supabaseUser))
                         else
                           publish (sofar1 @ toast_unless isPasswordUpdateFlow fetch_failed_toast) None
                     | None \<Rightarrow>
                         (case qr_data fr of
                            Some appUser \<Rightarrow>
                              publish (sofar1 @ [SelectApplicant (su_id supabaseUser)])
                                (Some (authenticatedUser supabaseUser appUser
                                   (applicant_fields (applicant_result env))))
                          | None \<Rightarrow> publish sofar1 (Some (tempUser supabaseUser)))))))"


section \<open>The profile store, as the source expects it to behave\<close>

text \<open>
  The store is a remote service. What the source relies on is written down here so that
  passes can be run against one shared store: a table holds at most one row for an
  \<^verbatim>\<open>auth_id\<close>; \<^verbatim>\<open>.single()\<close> on no row answers with the code \<^verbatim>\<open>PGRST116\<close>; an insert
  for an \<^verbatim>\<open>auth_id\<close> that has a row answers with the code \<^verbatim>\<open>23505\<close> and stores nothing.
\<close>

type_synonym table = "string \<rightharpoonup> app_user_insert"

type_synonym database = "string \<Rightarrow> table"

definition selected :: "app_user_insert \<Rightarrow> app_user_row" where
  "selected r = \<lparr>row_role = ins_role r, row_username = Some (ins_username r)\<rparr>"

definition select_single :: "table \<Rightarrow> string \<Rightarrow> app_user_row query_response" where
  "select_single tbl auth_id =
     (case tbl auth_id of
        None \<Rightarrow> \<lparr>qr_data = None,
                  qr_error = Some \<lparr>pg_code = ''PGRST116'', pg_message = ''no rows returned''\<rparr>\<rparr>
      | Some r \<Rightarrow> \<lparr>qr_data = Some (selected r), qr_error = None\<rparr>)"

definition insert_single :: "table \<Rightarrow> app_user_insert \<Rightarrow> app_user_row query_response \<times> table" where
  "insert_single tbl r =
     (case tbl (ins_auth_id r) of
        Some old \<Rightarrow> (\<lparr>qr_data = None,
                       qr_error = Some \<lparr>pg_code = ''23505'', pg_message = ''duplicate key''\<rparr>\<rparr>, tbl)
      | None \<Rightarrow> (\<lparr>qr_data = Some (selected r), qr_error = None\<rparr>, tbl(ins_auth_id r \<mapsto> r)))"

text \<open>\<^verbatim>\<open>.update({ username }).eq('auth_id', id)\<close>; an \<^verbatim>\<open>undefined\<close> username changes no
  column.\<close>

definition update_username :: "table \<Rightarrow> string \<Rightarrow> string option \<Rightarrow> table" where
  "update_username tbl auth_id username =
     (case (tbl auth_id, username) of
        (Some r, Some n) \<Rightarrow> tbl(auth_id \<mapsto> r\<lparr>ins_username := n\<rparr>)
      | other \<Rightarrow> tbl)"

section \<open>The provider: state, timers and operations\<close>

datatype timer_action =
    ClearPasswordUpdateFlow
  | ClearProcessingPasswordUpdate
  | DebouncedHandleSession "session option"

text \<open>
  The state of \<^verbatim>\<open>AuthProvider\<close>: its three React state variables, the two variables local
  to the subscription effect (\<^verbatim>\<open>isProcessingPasswordUpdate\<close>, \<^verbatim>\<open>timeoutId\<close>), the pending
  timers as (id, due time, action) in the order of their creation, and what has been shown,
  navigated to and reconciled so far. Time is in milliseconds.
\<close>

record provider =
  user :: "authenticated_user option"
  isLoading :: bool
  isPasswordUpdateFlow :: bool
  isProcessingPasswordUpdate :: bool
  timeoutId :: "nat option"
  timers :: "(nat \<times> nat \<times> timer_action) list"
  next_timer :: nat
  shown :: "toast list"
  pushed :: "string list"
  passes :: "session option list"

definition initial_provider :: provider where
  "initial_provider = \<lparr>user = None, isLoading = True, isPasswordUpdateFlow = False,
     isProcessingPasswordUpdate = False, timeoutId = None, timers = [], next_timer = 0,
     shown = [], pushed = [], passes = []\<rparr>"

definition setTimeout :: "nat \<Rightarrow> nat \<Rightarrow> timer_action \<Rightarrow> provider \<Rightarrow> nat \<times> provider" where
  "setTimeout now delay action st =
     (next_timer st,
      st\<lparr>timers := timers st @ [(next_timer st, now + delay, action)],
         next_timer := Suc (next_timer st)\<rparr>)"

definition clearTimeout :: "nat option \<Rightarrow> provider \<Rightarrow> provider" where
  "clearTimeout tid st =
     (case tid of
        None \<Rightarrow> st
      | Some i \<Rightarrow> st\<lparr>timers := filter (\<lambda>x. fst x \<noteq> i) (timers st)\<rparr>)"

definition showToast :: "toast \<Rightarrow> provider \<Rightarrow> provider" where
  "showToast t st = st\<lparr>shown := shown st @ [t]\<rparr>"

text \<open>What a pass does to the provider: \<^verbatim>\<open>setUser\<close> and \<^verbatim>\<open>toast\<close>; the remote calls do
  not touch it.\<close>

fun apply_effect :: "effect \<Rightarrow> provider \<Rightarrow> provider" where
  "apply_effect (SetUser u) st = st\<lparr>user := u\<rparr>"
| "apply_effect (ShowToast t) st = showToast t st"
| "apply_effect other st = st"

text \<open>
  A pass is a parameter of the provider's operations: the memoised \<^verbatim>\<open>handleSession\<close>
  closure with whatever the remote services answer at that time. It is run as one step.
\<close>

type_synonym pass = "nat \<Rightarrow> session option \<Rightarrow> hs_outcome"

definition run_pass :: "pass \<Rightarrow> nat \<Rightarrow> session option \<Rightarrow> provider \<Rightarrow> provider" where
  "run_pass hs now s st = fold apply_effect (effects (hs now s)) (st\<lparr>passes := passes st @ [s]\<rparr>)"

text \<open>What the callback of a timer does when it runs at time \<open>now\<close>. No callback starts or
  clears a timer.\<close>

fun fire :: "pass \<Rightarrow> nat \<Rightarrow> timer_action \<Rightarrow> provider \<Rightarrow> provider" where
  "fire hs now ClearPasswordUpdateFlow st = st\<lparr>isPasswordUpdateFlow := False\<rparr>"
| "fire hs now ClearProcessingPasswordUpdate st = st\<lparr>isProcessingPasswordUpdate := False\<rparr>"
| "fire hs now (DebouncedHandleSession s) st = run_pass hs now s st"

definition due_time :: "nat \<times> nat \<times> timer_action \<Rightarrow> nat" where
  "due_time x = fst (snd x)"

text \<open>
  The timer with the id \<open>i\<close> runs at time \<open>now\<close>. \<^verbatim>\<open>setTimeout\<close> promises a minimum
  delay only: a timer never runs before it is due, and may run at any time from then on. A
  timer that is not pending, or not yet due, does not run.
\<close>

definition timer_fired :: "pass \<Rightarrow> nat \<Rightarrow> nat \<Rightarrow> provider \<Rightarrow> provider" where
  "timer_fired hs now i st =
     (case find (\<lambda>x. fst x = i) (timers st) of
        None \<Rightarrow> st
      | Some x \<Rightarrow>
          if due_time x \<le> now
          then fire hs now (snd (snd x)) (st\<lparr>timers := remove1 x (timers st)\<rparr>)
          else st)"

datatype auth_event =
    INITIAL_SESSION
  | SIGNED_IN
  | SIGNED_OUT
  | TOKEN_REFRESHED
  | USER_UPDATED
  | PASSWORD_RECOVERY
  | MFA_CHALLENGE_VERIFIED

text \<open>The callback given to \<^verbatim>\<open>supabase.auth.onAuthStateChange\<close>, called at time \<open>now\<close>.\<close>

definition onAuthStateChange :: "nat \<Rightarrow> auth_event \<Rightarrow> session option \<Rightarrow> provider \<Rightarrow> provider" where
  "onAuthStateChange now event session st =
     (if event = TOKEN_REFRESHED then st
      else if event = USER_UPDATED then
        snd (setTimeout now 2000 ClearProcessingPasswordUpdate
               (st\<lparr>isProcessingPasswordUpdate := True\<rparr>))
      else if event = SIGNED_OUT then
        (if isProcessingPasswordUpdate st then st else st\<lparr>user := None\<rparr>)
      else
        (let st1 = (if event = SIGNED_IN \<and> isProcessingPasswordUpdate st
                    then st\<lparr>isProcessingPasswordUpdate := False\<rparr> else st);
             st2 = clearTimeout (timeoutId st1) st1;
             (tid, st3) = setTimeout now 100 (DebouncedHandleSession session) st2
         in st3\<lparr>timeoutId := Some tid\<rparr>))"

text \<open>
  What happens to a mounted provider from outside, with the time at which it happens: a
  change notification arrives, or a timer runs. The order and the times of the steps of a run
  are given; the only constraint is the one in \<open>timer_fired\<close>.
\<close>

datatype step = Notified auth_event "session option" | TimerFired nat

fun do_step :: "pass \<Rightarrow> nat \<times> step \<Rightarrow> provider \<Rightarrow> provider" where
  "do_step hs (t, Notified event session) st = onAuthStateChange t event session st"
| "do_step hs (t, TimerFired i) st = timer_fired hs t i st"

definition run :: "pass \<Rightarrow> (nat \<times> step) list \<Rightarrow> provider \<Rightarrow> provider" where
  "run hs steps st = fold (do_step hs) steps st"

text \<open>
  The \<^verbatim>\<open>.then\<close> callback of the \<^verbatim>\<open>getSession()\<close> call made when the provider mounts,
  and \<^verbatim>\<open>handleRefreshTokenError\<close>, which it calls for an error whose message mentions a
  refresh or a token. (An error without a message behaves like one with an empty message.)
\<close>

record get_session_answer =
  gs_session :: "session option"
  gs_error :: "string option"

definition session_expired_toast :: toast where
  "session_expired_toast = \<lparr>t_title = ''Session Expired'',
     t_description = ''Please log in again.'', t_destructive = True\<rparr>"

definition handleRefreshTokenError :: "unit js_result \<Rightarrow> provider \<Rightarrow> provider" where
  "handleRefreshTokenError signOut_answer st =
     (case signOut_answer of
        Throws e \<Rightarrow> st
      | Returns u \<Rightarrow> showToast session_expired_toast (st\<lparr>user := None\<rparr>))"

definition getInitialSession ::
  "pass \<Rightarrow> nat \<Rightarrow> get_session_answer js_result \<Rightarrow> unit js_result \<Rightarrow> provider \<Rightarrow> provider" where
  "getInitialSession hs now answer signOut_answer st =
     (case answer of
        Throws e \<Rightarrow> st
      | Returns r \<Rightarrow>
          (case gs_error r of
             Some message \<Rightarrow>
               if str_includes message ''refresh'' \<or> str_includes message ''token''
               then handleRefreshTokenError signOut_answer st
               else st
           | None \<Rightarrow> (run_pass hs now (gs_session r) st)\<lparr>isLoading := False\<rparr>))"






text \<open>
  \<^verbatim>\<open>updateUserProfile(updates)\<close>, given the answers of the store's update and of
  \<^verbatim>\<open>getSession\<close>. It updates the table named \<^verbatim>\<open>profile\<close>. The pass it starts is not
  awaited, so its effects come after the notification.
\<close>

definition profile_failed_toast :: toast where
  "profile_failed_toast = \<lparr>t_title = ''Error'',
     t_description = ''Failed to update profile.'', t_destructive = True\<rparr>"

definition profile_updated_toast :: toast where
  "profile_updated_toast = \<lparr>t_title = ''Success'',
     t_description = ''Your profile has been updated.'', t_destructive = False\<rparr>"

definition updateUserProfile ::
  "pass \<Rightarrow> nat \<Rightarrow> string option \<Rightarrow> pg_error option js_result \<Rightarrow> session option js_result
     \<Rightarrow> provider \<times> database \<Rightarrow> bool js_result \<times> provider \<times> database" where
  "updateUserProfile hs now username update_answer getSession_answer w =
     (case w of (st, db) \<Rightarrow>
        (case user st of
           None \<Rightarrow> (Returns False, st, db)
         | Some u \<Rightarrow>
             (case update_answer of
                Throws e \<Rightarrow> (Throws e, st, db)
              | Returns (Some error) \<Rightarrow> (Returns False, showToast profile_failed_toast st, db)
              | Returns None \<Rightarrow>
                  (let db' = db(''profile'' := update_username (db ''profile'') (au_id u) username) in
                   case getSession_answer of
                     Throws e \<Rightarrow> (Throws e, st, db')
                   | Returns session \<Rightarrow>
                       (Returns True,
                        run_pass hs now session (showToast profile_updated_toast st), db')))))"

text \<open>
  \<^verbatim>\<open>updateUserPassword(oldPass, newPass)\<close>, given the answers (an error message or none)
  of the re-authentication and of \<^verbatim>\<open>updateUser\<close>. The flag it raises is the state
  variable \<^verbatim>\<open>isPasswordUpdateFlow\<close>.

  The identity service is outside this repository. When \<^verbatim>\<open>updateUser\<close> succeeds it
  notifies the subscription of \<^verbatim>\<open>USER_UPDATED\<close> (with the session \<open>updated\<close>) before the
  call returns: the source relies on it, in the note after the success notification
  (``Our auth state handler will manage this transition'') and in the \<^verbatim>\<open>USER_UPDATED\<close>
  branch of the callback (``likely password change''). That notification is part of the
  model of a successful call.
\<close>

definition password_toast :: "string \<Rightarrow> string \<Rightarrow> bool \<Rightarrow> toast" where
  "password_toast title description destructive =
     \<lparr>t_title = title, t_description = description, t_destructive = destructive\<rparr>"

definition password_catch :: "string option \<Rightarrow> provider \<Rightarrow> bool \<times> provider" where
  "password_catch e st =
     (False,
      showToast (password_toast ''Update Failed''
                   (or_empty (js_or e (Some ''An unexpected error occurred.''))) True)
        (st\<lparr>isPasswordUpdateFlow := False\<rparr>))"

definition change_password ::
  "nat \<Rightarrow> string option js_result \<Rightarrow> session option \<Rightarrow> provider \<Rightarrow> bool \<times> provider" where
  "change_password now updateUser_answer updated st =
     (case updateUser_answer of
        Throws e \<Rightarrow> password_catch e st
      | Returns (Some message) \<Rightarrow>
          (False, showToast (password_toast ''Update Failed'' message True) st)
      | Returns None \<Rightarrow>
          (True,
           snd (setTimeout now 3000 ClearPasswordUpdateFlow
                  (showToast (password_toast ''Password Updated''
                     ''Your password has been successfully updated.'' False)
                     (onAuthStateChange now USER_UPDATED updated st)))))"

definition updateUserPassword ::
  "nat \<Rightarrow> string \<Rightarrow> string option js_result \<Rightarrow> string option js_result \<Rightarrow> session option
     \<Rightarrow> provider \<Rightarrow> bool \<times> provider" where
  "updateUserPassword now oldPass signIn_answer updateUser_answer updated st =
     (case user st of
        None \<Rightarrow> (False, st)
      | Some u \<Rightarrow>
          (let st1 = st\<lparr>isPasswordUpdateFlow := True\<rparr> in
           if oldPass \<noteq> [] then
             (case signIn_answer of
                Throws e \<Rightarrow> password_catch e st1
              | Returns (Some message) \<Rightarrow>
                  (False, showToast (password_toast ''Incorrect Old Password'' message True) st1)
              | Returns None \<Rightarrow> change_password now updateUser_answer updated st1)
           else change_password now updateUser_answer updated st1))"

section \<open>The route guard\<close>

definition publicUserAuthenticatedPaths :: "string list" where
  "publicUserAuthenticatedPaths =
     [''/public/home'', ''/public/track-status'', ''/public/application-submitted'',
      ''/public/profile'', ''/public/faq'', ''/public/schedule-biometrics'']"

definition publicUnauthenticatedPaths :: "string list" where
  "publicUnauthenticatedPaths =
     [''/auth'', ''/'', ''/landing'', ''/public/forgot-password'', ''/public/reset-password'']"

definition isPublicPath :: "string \<Rightarrow> bool" where
  "isPublicPath pathname =
     (List.member publicUnauthenticatedPaths pathname
      \<or> str_includes pathname ''/reset-password''
      \<or> str_includes pathname ''/forgot-password'')"

text \<open>The second \<^verbatim>\<open>useEffect\<close>: the route it pushes, if any, for the published user and the
  current location.\<close>

definition route_guard :: "bool \<Rightarrow> authenticated_user option \<Rightarrow> string \<Rightarrow> string option" where
  "route_guard loading usr pathname =
     (if loading then None
      else
        (case usr of
           Some u \<Rightarrow>
             if au_role u = ''officer'' \<and> startsWith pathname ''/public/'' then Some ''/dashboard''
             else if au_role u = ''public'' \<and> startsWith pathname ''/dashboard'' then
               Some ''/public/home''
             else None
         | None \<Rightarrow>
             if \<not> List.member publicUserAuthenticatedPaths pathname \<and> \<not> isPublicPath pathname
             then Some ''/auth''
             else None))"

section \<open>Reading answers, traces and timers\<close>

text \<open>An answer with a row and no error, and an answer with an error and no row.\<close>

definition found :: "'a \<Rightarrow> 'a query_response js_result" where
  "found x = Returns \<lparr>qr_data = Some x, qr_error = None\<rparr>"

definition failed :: "string \<Rightarrow> string \<Rightarrow> 'a query_response js_result" where
  "failed code message =
     Returns \<lparr>qr_data = None, qr_error = Some \<lparr>pg_code = code, pg_message = message\<rparr>\<rparr>"

text \<open>The error that an answer carries, if the call returned and carries one.\<close>

definition error_of :: "'a query_response js_result \<Rightarrow> pg_error option" where
  "error_of res = (case res of Throws e \<Rightarrow> None | Returns r \<Rightarrow> qr_error r)"

definition refresh_error_of :: "refresh_response js_result \<Rightarrow> string option" where
  "refresh_error_of res = (case res of Throws e \<Rightarrow> None | Returns r \<Rightarrow> refresh_error r)"

definition rejects :: "'a js_result \<Rightarrow> bool" where
  "rejects res = (case res of Throws e \<Rightarrow> True | Returns x \<Rightarrow> False)"

text \<open>The notifications and the published users of a trace, in order.\<close>

definition toasts_of :: "effect list \<Rightarrow> toast list" where
  "toasts_of es = concat (map (\<lambda>e. case e of ShowToast t \<Rightarrow> [t] | other \<Rightarrow> []) es)"

definition published_of :: "effect list \<Rightarrow> authenticated_user option list" where
  "published_of es = concat (map (\<lambda>e. case e of SetUser u \<Rightarrow> [u] | other \<Rightarrow> []) es)"

fun is_select :: "effect \<Rightarrow> bool" where
  "is_select (SelectAppUser i) = True"
| "is_select other = False"

fun is_insert :: "effect \<Rightarrow> bool" where
  "is_insert (InsertAppUser r) = True"
| "is_insert other = False"

text \<open>
  One of the calls that a pass with the trace \<open>es\<close> made was rejected: the refresh, the
  sign-out, the first read of the profile, its creation, or its second read. (The read of
  the applicant record has a \<^verbatim>\<open>try/catch\<close> of its own.)
\<close>

definition rejected_call :: "hs_env \<Rightarrow> effect list \<Rightarrow> bool" where
  "rejected_call env es =
     (List.member es RefreshSession \<and> rejects (refreshSession_result env)
      \<or> List.member es SignOut \<and> rejects (signOut_result env)
      \<or> 1 \<le> length (filter is_select es) \<and> rejects (fetch_result env)
      \<or> list_ex is_insert es \<and> rejects (create_result env)
      \<or> 2 \<le> length (filter is_select es) \<and> rejects (refetch_result env))"

text \<open>The pass that the provider's operations run: \<^verbatim>\<open>handleSession\<close> holding the flag
  \<open>flag\<close>, with the answers \<open>env\<close> of the remote services.\<close>

definition pass_of :: "hs_env \<Rightarrow> bool \<Rightarrow> pass" where
  "pass_of env flag = (\<lambda>t session. handleSession env flag (int t) session)"

text \<open>
  The answers that a pass for the identity \<open>su\<close> gets when it runs alone against the store
  \<open>db\<close>, with no call failing for a reason of its own: the profile is read from, and
  created in, the table \<^verbatim>\<open>app_user\<close>; there is no applicant record.
\<close>

definition store_env :: "database \<Rightarrow> sb_user \<Rightarrow> hs_env" where
  "store_env db su =
     \<lparr>refreshSession_result = Returns \<lparr>refreshed_session = None, refresh_error = None\<rparr>,
      signOut_result = Returns (),
      fetch_result = Returns (select_single (db ''app_user'') (su_id su)),
      create_result = Returns (fst (insert_single (db ''app_user'') (new_profile su))),
      refetch_result =
        Returns (select_single (snd (insert_single (db ''app_user'') (new_profile su))) (su_id su)),
      applicant_result = Returns \<lparr>qr_data = None, qr_error = None\<rparr>\<rparr>"

text \<open>The pending debounce timers of a provider, as (due time, session).\<close>

fun debounce_of :: "nat \<times> nat \<times> timer_action \<Rightarrow> (nat \<times> session option) list" where
  "debounce_of (i, due, DebouncedHandleSession s) = [(due, s)]"
| "debounce_of (i, due, other) = []"

definition pending_debounce :: "provider \<Rightarrow> (nat \<times> session option) list" where
  "pending_debounce st = concat (map debounce_of (timers st))"

fun clears_processing :: "nat \<times> nat \<times> timer_action \<Rightarrow> bool" where
  "clears_processing (i, due, ClearProcessingPasswordUpdate) = True"
| "clears_processing (i, due, other) = False"

text \<open>The events that the callback hands to the debounced pass.\<close>

definition debounced_event :: "auth_event \<Rightarrow> bool" where
  "debounced_event event = (event \<noteq> TOKEN_REFRESHED \<and> event \<noteq> USER_UPDATED \<and> event \<noteq> SIGNED_OUT)"

text \<open>Every pending debounce timer is the one that \<^verbatim>\<open>timeoutId\<close> names.\<close>

definition debounce_tracked :: "provider \<Rightarrow> bool" where
  "debounce_tracked st =
     list_all (\<lambda>x. debounce_of x = [] \<or> timeoutId st = Some (fst x)) (timers st)"

text \<open>The table after the store has handled the inserts of a trace, in order.\<close>

fun write_effect :: "effect \<Rightarrow> table \<Rightarrow> table" where
  "write_effect (InsertAppUser r) tbl = snd (insert_single tbl r)"
| "write_effect other tbl = tbl"

definition written :: "effect list \<Rightarrow> table \<Rightarrow> table" where
  "written es tbl = fold write_effect es tbl"

text \<open>
  The platform hands out a fresh id for every timer: the ids of the pending timers are
  distinct and below the counter, and so is the id that \<^verbatim>\<open>timeoutId\<close> holds.
\<close>

definition timers_wf :: "provider \<Rightarrow> bool" where
  "timers_wf st =
     (distinct (map fst (timers st))
      \<and> list_all (\<lambda>x. fst x < next_timer st) (timers st)
      \<and> pred_option (\<lambda>i. i < next_timer st) (timeoutId st))"

text \<open>The notifications among the steps of a run, in order.\<close>

fun notification_of :: "nat \<times> step \<Rightarrow> (nat \<times> auth_event \<times> session option) list" where
  "notification_of (t, Notified event session) = [(t, event, session)]"
| "notification_of (t, TimerFired i) = []"

definition notifications :: "(nat \<times> step) list \<Rightarrow> (nat \<times> auth_event \<times> session option) list" where
  "notifications steps = concat (map notification_of steps)"

fun signed_in :: "nat \<times> step \<Rightarrow> bool" where
  "signed_in (t, Notified SIGNED_IN session) = True"
| "signed_in other = False"

text \<open>
  The window that a \<^verbatim>\<open>USER_UPDATED\<close> notification opens is still open: the flag of the
  subscription is set, the timer \<open>i\<close> that will clear it is pending and due at \<open>B\<close>, it is
  not the timer that \<^verbatim>\<open>timeoutId\<close> names, and no timer that clears the flag is due before
  \<open>B\<close>.
\<close>

definition window_open :: "nat \<Rightarrow> nat \<Rightarrow> provider \<Rightarrow> bool" where
  "window_open i B st =
     (isProcessingPasswordUpdate st \<and> timers_wf st
      \<and> List.member (timers st) (i, B, ClearProcessingPasswordUpdate)
      \<and> timeoutId st \<noteq> Some i
      \<and> list_all (\<lambda>x. \<not> clears_processing x \<or> B \<le> due_time x) (timers st))"

section \<open>Example inputs\<close>

definition ex_user :: sb_user where
  "ex_user = \<lparr>su_id = ''u-1'', su_email = Some ''ana@example.org'',
     su_metadata_username = Some ''ana''\<rparr>"

definition ex_session :: session where
  "ex_session = \<lparr>sess_user = ex_user, expires_at = Some 1700000000\<rparr>"

text \<open>A first login: no profile row yet, the creation succeeds.\<close>

definition ex_env :: hs_env where
  "ex_env = \<lparr>refreshSession_result = Returns \<lparr>refreshed_session = None, refresh_error = None\<rparr>,
     signOut_result = Returns (),
     fetch_result = failed ''PGRST116'' ''no rows returned'',
     create_result = found \<lparr>row_role = ''public'', row_username = Some ''ana''\<rparr>,
     refetch_result = found \<lparr>row_role = ''public'', row_username = Some ''ana''\<rparr>,
     applicant_result = Returns \<lparr>qr_data = None, qr_error = None\<rparr>\<rparr>"

definition ex_denied_env :: hs_env where
  "ex_denied_env = ex_env\<lparr>create_result := failed ''42501'' ''row-level security''\<rparr>"

definition ex_officer_env :: hs_env where
  "ex_officer_env = ex_env\<lparr>fetch_result := found \<lparr>row_role = ''officer'', row_username = Some ''ana''\<rparr>\<rparr>"

definition ex_refresh_failed_env :: hs_env where
  "ex_refresh_failed_env = ex_env\<lparr>refreshSession_result :=
     Returns \<lparr>refreshed_session = None, refresh_error = Some ''Invalid Refresh Token''\<rparr>\<rparr>"

definition ex_rejecting_env :: hs_env where
  "ex_rejecting_env = ex_env\<lparr>create_result := Throws (Some ''Failed to fetch'')\<rparr>"

definition ex_create_failed_env :: hs_env where
  "ex_create_failed_env = ex_env\<lparr>create_result := failed ''23502'' ''null value in column''\<rparr>"

text \<open>Two passes against an empty table: the one that creates the row, and the one whose
  insert comes second.\<close>

definition ex_table :: table where
  "ex_table = Map.empty"

definition ex_creating_env :: hs_env where
  "ex_creating_env = ex_env\<lparr>
     fetch_result := Returns (select_single ex_table ''u-1''),
     create_result := Returns (fst (insert_single ex_table (new_profile ex_user)))\<rparr>"

definition ex_racing_env :: hs_env where
  "ex_racing_env = ex_env\<lparr>
     fetch_result := Returns (select_single ex_table ''u-1''),
     create_result := Returns (fst (insert_single (ex_table(''u-1'' \<mapsto> new_profile ex_user)) (new_profile ex_user))),
     refetch_result := Returns (select_single (ex_table(''u-1'' \<mapsto> new_profile ex_user)) ''u-1'')\<rparr>"

definition ex_officer :: authenticated_user where
  "ex_officer = authenticatedUser ex_user \<lparr>row_role = ''officer'', row_username = Some ''ana''\<rparr>
     (None, None, None)"

definition ex_citizen :: authenticated_user where
  "ex_citizen = authenticatedUser ex_user \<lparr>row_role = ''public'', row_username = Some ''ana''\<rparr>
     (None, None, None)"

definition ex_logged_in :: provider where
  "ex_logged_in = initial_provider\<lparr>user := Some ex_citizen, isLoading := False\<rparr>"

text \<open>A store in which both tables hold a row for the user, before and after the username
  \<^verbatim>\<open>maria\<close> is written to the table \<^verbatim>\<open>profile\<close>.\<close>

definition ex_database :: database where
  "ex_database = (\<lambda>t. Map.empty)
     (''app_user'' := [''u-1'' \<mapsto> new_profile ex_user],
      ''profile'' := [''u-1'' \<mapsto> new_profile ex_user])"

definition ex_database_after :: database where
  "ex_database_after = ex_database
     (''profile'' := [''u-1'' \<mapsto> (new_profile ex_user)\<lparr>ins_username := ''maria''\<rparr>])"

definition ex_refetch_failed_env :: hs_env where
  "ex_refetch_failed_env = ex_env\<lparr>create_result := failed ''23505'' ''duplicate key'',
     refetch_result := failed ''500'' ''Internal Server Error''\<rparr>"

text \<open>The logged-in user changes the password at time 0, and again 1500 ms later; and,
  for comparison, only once, at 1500 ms.\<close>

definition ex_updated_once :: provider where
  "ex_updated_once = snd (updateUserPassword 0 ''old-secret'' (Returns None) (Returns None)
     (Some ex_session) ex_logged_in)"

definition ex_updated_twice :: provider where
  "ex_updated_twice = snd (updateUserPassword 1500 ''newer-secret'' (Returns None) (Returns None)
     (Some ex_session) ex_updated_once)"

definition ex_updated_late :: provider where
  "ex_updated_late = snd (updateUserPassword 1500 ''old-secret'' (Returns None) (Returns None)
     (Some ex_session) ex_logged_in)"

text \<open>The provider once it has mounted with nobody logged in.\<close>

definition ex_mounted :: provider where
  "ex_mounted = getInitialSession (pass_of ex_env False) 0
     (Returns \<lparr>gs_session = None, gs_error = None\<rparr>) (Returns ()) initial_provider"

text \<open>Five notifications within 100 ms, and a timer that tries to run in between.\<close>

definition ex_burst :: "(nat \<times> step) list" where
  "ex_burst = [(10, Notified INITIAL_SESSION None), (25, Notified SIGNED_IN (Some ex_session)),
     (60, Notified SIGNED_IN (Some ex_session)), (90, TimerFired 2),
     (109, Notified PASSWORD_RECOVERY None),
     (109, Notified SIGNED_IN (Some (ex_session\<lparr>expires_at := None\<rparr>)))]"

section \<open>The string helpers are the usual notions\<close>

lemma startsWith_iff: "startsWith s p \<longleftrightarrow> (\<exists>ss. s = p @ ss)"
  unfolding startsWith_def
  by (metis append_eq_conv_conj append_take_drop_id)

lemma str_includes_iff: "str_includes s p \<longleftrightarrow> (\<exists>ps ss. s = ps @ p @ ss)"
proof (induction s)
  case Nil
  show ?case by auto
next
  case (Cons c cs)
  show ?case
  proof
    assume "str_includes (c # cs) p"
    then consider "startsWith (c # cs) p" | "str_includes cs p" by auto
    then show "\<exists>ps ss. c # cs = ps @ p @ ss"
    proof cases
      case 1
      then obtain ss where "c # cs = p @ ss" by (auto simp: startsWith_iff)
      then have "c # cs = [] @ p @ ss" by simp
      then show ?thesis by blast
    next
      case 2
      then obtain ps ss where "cs = ps @ p @ ss" using Cons.IH by auto
      then have "c # cs = (c # ps) @ p @ ss" by simp
      then show ?thesis by blast
    qed
  next
    assume "\<exists>ps ss. c # cs = ps @ p @ ss"
    then obtain ps ss where e: "c # cs = ps @ p @ ss" by auto
    show "str_includes (c # cs) p"
    proof (cases ps)
      case Nil
      with e have "startsWith (c # cs) p" by (auto simp: startsWith_iff)
      then show ?thesis by simp
    next
      case (Cons a ps')
      with e have "cs = ps' @ p @ ss" by simp
      then have "str_includes cs p" using Cons.IH by blast
      then show ?thesis by simp
    qed
  qed
qed

section \<open>Shape of the trace of a pass\<close>

lemma toasts_of_simps [simp]:
  "toasts_of [] = []"
  "toasts_of (ShowToast t # es) = t # toasts_of es"
  "toasts_of (SetUser u # es) = toasts_of es"
  "toasts_of (RefreshSession # es) = toasts_of es"
  "toasts_of (SignOut # es) = toasts_of es"
  "toasts_of (SelectAppUser i # es) = toasts_of es"
  "toasts_of (InsertAppUser r # es) = toasts_of es"
  "toasts_of (SelectApplicant i # es) = toasts_of es"
  "toasts_of (es @ fs) = toasts_of es @ toasts_of fs"
  by (simp_all add: toasts_of_def)

lemma published_of_simps [simp]:
  "published_of [] = []"
  "published_of (ShowToast t # es) = published_of es"
  "published_of (SetUser u # es) = u # published_of es"
  "published_of (RefreshSession # es) = published_of es"
  "published_of (SignOut # es) = published_of es"
  "published_of (SelectAppUser i # es) = published_of es"
  "published_of (InsertAppUser r # es) = published_of es"
  "published_of (SelectApplicant i # es) = published_of es"
  "published_of (es @ fs) = published_of es @ published_of fs"
  by (simp_all add: published_of_def)



lemma returned_publish [simp]: "returned (publish sofar u) = u"
  by (simp add: publish_def)

lemma effects_publish [simp]: "effects (publish sofar u) = sofar @ [SetUser u]"
  by (simp add: publish_def)

lemma returned_unexpected [simp]: "returned (unexpected_error sofar) = None"
  by (simp add: unexpected_error_def)

lemma effects_unexpected [simp]:
  "effects (unexpected_error sofar) = sofar @ [ShowToast unexpected_toast, SetUser None]"
  by (simp add: unexpected_error_def)

lemma toasts_of_toast_unless [simp]:
  "toasts_of (toast_unless flag t) = (if flag then [] else [t])"
  by (simp add: toast_unless_def)

lemma published_of_toast_unless [simp]: "published_of (toast_unless flag t) = []"
  by (simp add: toast_unless_def)

lemma create_profile_published:
  "published_of (effects (create_profile env flag su sofar)) =
     published_of sofar @ [returned (create_profile env flag su sofar)]"
  by (simp add: create_profile_def Let_def split: js_result.split option.split)

lemma refresh_step_Inl_published:
  "refresh_step env now sess = Inl out \<Longrightarrow> published_of (effects out) = [returned out]"
  by (auto simp add: refresh_step_def split: js_result.splits option.splits if_splits)

lemma refresh_step_Inr_cases:
  "refresh_step env now sess = Inr (s', sofar) \<Longrightarrow>
     (\<not> session_expired now sess \<and> sofar = []) \<or> (session_expired now sess \<and> sofar = [RefreshSession])"
  by (auto simp add: refresh_step_def split: js_result.splits option.splits if_splits)

lemma refresh_step_Inr_published:
  "refresh_step env now sess = Inr (s', sofar) \<Longrightarrow> published_of sofar = []"
  by (auto dest: refresh_step_Inr_cases)

lemma published_once:
  "published_of (effects (handleSession env flag now session)) =
     [returned (handleSession env flag now session)]"
  by (simp add: handleSession_def Let_def create_profile_published
      refresh_step_Inl_published refresh_step_Inr_published
      split: js_result.split option.split sum.split prod.split)

lemma create_profile_last:
  "\<exists>mid. effects (create_profile env flag su sofar) =
     sofar @ mid @ [SetUser (returned (create_profile env flag su sofar))]"
  by (simp add: create_profile_def Let_def split: js_result.split option.split)

lemma refresh_step_Inl_last:
  "refresh_step env now sess = Inl out \<Longrightarrow> \<exists>mid. effects out = mid @ [SetUser (returned out)]"
  by (auto simp add: refresh_step_def split: js_result.splits option.splits if_splits)

lemma handleSession_last:
  "\<exists>mid. effects (handleSession env flag now session) =
     mid @ [SetUser (returned (handleSession env flag now session))]"
proof (cases session)
  case None
  then show ?thesis by (simp add: handleSession_def)
next
  case (Some sess)
  show ?thesis
  proof (cases "refresh_step env now sess")
    case (Inl out)
    with Some show ?thesis using refresh_step_Inl_last [OF Inl]
      by (simp add: handleSession_def Let_def)
  next
    case (Inr p)
    obtain s' sofar where p: "p = (s', sofar)" by (cases p)
    obtain mid where mid: "effects (create_profile env flag (sess_user sess) (sofar @ [SelectAppUser (su_id (sess_user sess))])) =
       (sofar @ [SelectAppUser (su_id (sess_user sess))]) @ mid @ [SetUser (returned (create_profile env flag (sess_user sess) (sofar @ [SelectAppUser (su_id (sess_user sess))])))]"
      using create_profile_last by blast
    show ?thesis using Some Inr p mid
      by (simp add: handleSession_def Let_def split: js_result.split option.split)
  qed
qed

section \<open>Permission denied on creation\<close>

lemma refresh_step_ex [simp]: "refresh_step env 1000 ex_session = Inr (ex_session, [])"
  by (simp add: refresh_step_def session_expired_def ex_session_def)

text \<open>
  C8. When the profile is not found (\<^verbatim>\<open>PGRST116\<close>) and its creation is refused with
  \<^verbatim>\<open>42501\<close>, the pass returns and publishes the temporary user, whose role is
  \<^verbatim>\<open>public\<close> and whose username is the identity's metadata username; it shows no
  notification, and the refused insert is the only write it sends to the store.
\<close>

theorem permission_denied_temporary_user:
  assumes "refresh_step env now sess = Inr (s', sofar)"
    and "fetch_result env = Returns fr" and "qr_error fr = Some fe"
    and "pg_code fe = ''PGRST116''"
    and "create_result env = Returns cr" and "qr_error cr = Some ce"
    and "pg_code ce = ''42501''"
  shows "handleSession env flag now (Some sess) =
           \<lparr>returned = Some (tempUser (sess_user sess)),
            effects = sofar @ [SelectAppUser (su_id (sess_user sess)),
                               InsertAppUser (new_profile (sess_user sess)),
                               SetUser (Some (tempUser (sess_user sess)))]\<rparr>
         \<and> au_role (tempUser (sess_user sess)) = ''public''
         \<and> au_username (tempUser (sess_user sess)) = or_empty (su_metadata_username (sess_user sess))
         \<and> (sofar = [] \<or> sofar = [RefreshSession])"
  using assms refresh_step_Inr_cases [OF assms(1)]
  by (auto simp add: handleSession_def create_profile_def publish_def Let_def tempUser_def
      metadata_username_def)

theorem permission_denied_temporary_user_witness:
  "handleSession ex_denied_env False 1000 (Some ex_session) =
     \<lparr>returned = Some (tempUser ex_user),
      effects = [SelectAppUser ''u-1'', InsertAppUser (new_profile ex_user),
                 SetUser (Some (tempUser ex_user))]\<rparr>
   \<and> au_role (tempUser ex_user) = ''public'' \<and> au_username (tempUser ex_user) = ''ana''"
proof -
  have r: "refresh_step ex_denied_env 1000 ex_session = Inr (ex_session, [])"
    by simp
  have f: "fetch_result ex_denied_env = failed ''PGRST116'' ''no rows returned''"
    and c: "create_result ex_denied_env = failed ''42501'' ''row-level security''"
    by (simp_all add: ex_denied_env_def ex_env_def)
  show ?thesis
    using permission_denied_temporary_user [OF r f [unfolded failed_def] _ _ c [unfolded failed_def], of _ _ False]
    by (simp add: ex_session_def ex_user_def or_empty_def)
qed

section \<open>Where a published role comes from\<close>

lemma create_profile_role:
  assumes "returned (create_profile env flag su sofar) = Some u"
  shows "(u = tempUser su \<and> (\<exists>ce. error_of (create_result env) = Some ce \<and> pg_code ce = ''42501''))
       \<or> (\<exists>row. au_role u = row_role row \<and> au_registrationStatus u = None \<and>
             (create_result env = found row
              \<or> (\<exists>ce. error_of (create_result env) = Some ce \<and> pg_code ce = ''23505'')
                 \<and> refetch_result env = found row))"
proof (cases "create_result env")
  case (Throws e)
  with assms show ?thesis by (simp add: create_profile_def Let_def)
next
  case (Returns cr)
  show ?thesis
  proof (cases "qr_error cr")
    case None
    with assms Returns show ?thesis
      by (cases cr) (auto simp add: create_profile_def Let_def found_def newUser_def
          split: option.splits)
  next
    case (Some ce)
    show ?thesis
    proof (cases "pg_code ce = ''23505''")
      case True
      show ?thesis
      proof (cases "refetch_result env")
        case (Throws e)
        with assms Returns Some True show ?thesis by (simp add: create_profile_def Let_def)
      next
        case rr: (Returns rr)
        with assms Returns Some True show ?thesis
          by (cases rr) (auto simp add: create_profile_def Let_def found_def existingAuthUser_def
              error_of_def split: option.splits)
      qed
    next
      case False
      with assms Returns Some show ?thesis
        by (auto simp add: create_profile_def Let_def error_of_def split: if_splits)
    qed
  qed
qed


lemma handleSession_role:
  assumes "returned (handleSession env flag now (Some sess)) = Some u"
  shows "(u = tempUser (sess_user sess) \<and>
            ((\<exists>fe ce. error_of (fetch_result env) = Some fe \<and> pg_code fe = ''PGRST116'' \<and>
                 error_of (create_result env) = Some ce \<and> pg_code ce = ''42501'')
             \<or> (\<exists>fe. error_of (fetch_result env) = Some fe \<and> pg_code fe \<noteq> ''PGRST116'' \<and>
                   (pg_code fe = ''406'' \<or> str_includes (pg_message fe) ''Not Acceptable''))
             \<or> fetch_result env = Returns \<lparr>qr_data = None, qr_error = None\<rparr>))
       \<or> (\<exists>row. au_role u = row_role row \<and>
             (fetch_result env = found row
              \<or> (\<exists>fe. error_of (fetch_result env) = Some fe \<and> pg_code fe = ''PGRST116'') \<and>
                 (create_result env = found row
                  \<or> (\<exists>ce. error_of (create_result env) = Some ce \<and> pg_code ce = ''23505'')
                     \<and> refetch_result env = found row)))"
proof (cases "refresh_step env now sess")
  case (Inl out)
  then have "returned out = None"
    by (auto simp add: refresh_step_def split: if_splits js_result.splits option.splits)
  with assms Inl show ?thesis by (simp add: handleSession_def Let_def)
next
  case (Inr p)
  obtain s' sofar where p: "p = (s', sofar)" by (cases p)
  show ?thesis
  proof (cases "fetch_result env")
    case (Throws e)
    with assms Inr p show ?thesis by (simp add: handleSession_def Let_def)
  next
    case (Returns fr)
    show ?thesis
    proof (cases "qr_error fr")
      case None
      with assms Inr p Returns show ?thesis
        by (cases fr) (auto simp add: handleSession_def Let_def found_def authenticatedUser_def
            split: option.splits prod.splits)
    next
      case (Some fe)
      show ?thesis
      proof (cases "pg_code fe = ''PGRST116''")
        case True
        with assms Inr p Returns Some
        have "returned (create_profile env flag (sess_user sess)
                 (sofar @ [SelectAppUser (su_id (sess_user sess))])) = Some u"
          by (simp add: handleSession_def Let_def)
        from create_profile_role [OF this] Returns Some True show ?thesis
          by (auto simp add: error_of_def found_def)
      next
        case False
        with assms Inr p Returns Some show ?thesis
          by (auto simp add: handleSession_def Let_def error_of_def split: if_splits)
      qed
    qed
  qed
qed

lemma tempUser_public: "au_role (tempUser su) = ''public'' \<and> au_registrationStatus (tempUser su) = None"
  by (simp add: tempUser_def)

text \<open>
  C10. Take a pass that returns a user; that user is the one value it publishes. If the
  pass went through a fallback (the profile was not found and its creation was refused with
  \<^verbatim>\<open>42501\<close>; or the fetch failed with the code \<^verbatim>\<open>406\<close> or a message containing
  \<^verbatim>\<open>Not Acceptable\<close>; or the fetch gave neither a row nor an error), the user has role
  \<^verbatim>\<open>public\<close> and no registration status. And whenever the user's role is not \<^verbatim>\<open>public\<close>
  (so in particular when it is \<^verbatim>\<open>officer\<close>), that role is the role of a row which the
  store returned: the fetched row, or, after \<^verbatim>\<open>PGRST116\<close>, the created row or the row
  fetched again after the duplicate-key code \<^verbatim>\<open>23505\<close>.
\<close>

theorem fallback_users_are_public:
  assumes "returned (handleSession env flag now (Some sess)) = Some u"
  shows "published_of (effects (handleSession env flag now (Some sess))) = [Some u]
       \<and> (((error_of (fetch_result env) = Some fe \<and> pg_code fe = ''PGRST116'' \<and>
             error_of (create_result env) = Some ce \<and> pg_code ce = ''42501'')
           \<or> (error_of (fetch_result env) = Some fe \<and> pg_code fe \<noteq> ''PGRST116'' \<and>
                (pg_code fe = ''406'' \<or> str_includes (pg_message fe) ''Not Acceptable''))
           \<or> fetch_result env = Returns \<lparr>qr_data = None, qr_error = None\<rparr>)
          \<longrightarrow> au_role u = ''public'' \<and> au_registrationStatus u = None)
       \<and> (au_role u \<noteq> ''public'' \<longrightarrow>
            (\<exists>row. row_role row = au_role u \<and>
               (fetch_result env = found row
                \<or> (\<exists>fe. error_of (fetch_result env) = Some fe \<and> pg_code fe = ''PGRST116'') \<and>
                   (create_result env = found row
                    \<or> (\<exists>ce. error_of (create_result env) = Some ce \<and> pg_code ce = ''23505'')
                       \<and> refetch_result env = found row))))"
proof (intro conjI impI)
  show "published_of (effects (handleSession env flag now (Some sess))) = [Some u]"
    using published_once [of env flag now "Some sess"] assms by simp
next
  assume fb: "(error_of (fetch_result env) = Some fe \<and> pg_code fe = ''PGRST116'' \<and>
             error_of (create_result env) = Some ce \<and> pg_code ce = ''42501'')
           \<or> (error_of (fetch_result env) = Some fe \<and> pg_code fe \<noteq> ''PGRST116'' \<and>
                (pg_code fe = ''406'' \<or> str_includes (pg_message fe) ''Not Acceptable''))
           \<or> fetch_result env = Returns \<lparr>qr_data = None, qr_error = None\<rparr>"
  have "u = tempUser (sess_user sess)"
    using handleSession_role [OF assms] fb
    by (auto simp add: error_of_def found_def)
  then show "au_role u = ''public''" and "au_registrationStatus u = None"
    by (simp_all add: tempUser_def)
next
  let ?from_store = "\<lambda>row. fetch_result env = found row
                \<or> (\<exists>fe. error_of (fetch_result env) = Some fe \<and> pg_code fe = ''PGRST116'') \<and>
                   (create_result env = found row
                    \<or> (\<exists>ce. error_of (create_result env) = Some ce \<and> pg_code ce = ''23505'')
                       \<and> refetch_result env = found row)"
  assume officer: "au_role u \<noteq> ''public''"
  from handleSession_role [OF assms]
  consider "u = tempUser (sess_user sess)" | row where "au_role u = row_role row" "?from_store row"
    by blast
  then show "\<exists>row. row_role row = au_role u \<and> ?from_store row"
  proof cases
    case 1
    with officer show ?thesis by (simp add: tempUser_def)
  next
    case 2
    then have "row_role row = au_role u \<and> ?from_store row" by simp
    then show ?thesis ..
  qed
qed

lemma sess_user_ex [simp]: "sess_user ex_session = ex_user"
  by (simp add: ex_session_def)

theorem fallback_users_are_public_witness:
  "au_role (tempUser ex_user) = ''public'' \<and> au_registrationStatus (tempUser ex_user) = None
   \<and> (\<exists>row. row_role row = ''officer'' \<and> fetch_result ex_officer_env = found row)"
proof -
  have 1: "returned (handleSession ex_denied_env False 1000 (Some ex_session)) = Some (tempUser ex_user)"
    by (simp add: handleSession_def create_profile_def ex_denied_env_def ex_env_def failed_def
        Let_def)
  have 2: "returned (handleSession ex_officer_env False 1000 (Some ex_session)) =
      Some (authenticatedUser ex_user \<lparr>row_role = ''officer'', row_username = Some ''ana''\<rparr> (None, None, None))"
    by (simp add: handleSession_def ex_officer_env_def ex_env_def found_def
        Let_def applicant_fields_def)
  have e: "error_of (fetch_result ex_denied_env) = Some \<lparr>pg_code = ''PGRST116'', pg_message = ''no rows returned''\<rparr>"
    "error_of (create_result ex_denied_env) = Some \<lparr>pg_code = ''42501'', pg_message = ''row-level security''\<rparr>"
    by (simp_all add: ex_denied_env_def ex_env_def failed_def error_of_def)
  have f: "error_of (fetch_result ex_officer_env) = None"
    by (simp add: ex_officer_env_def ex_env_def found_def error_of_def)
  show ?thesis
    using fallback_users_are_public [OF 1,
        of "\<lparr>pg_code = ''PGRST116'', pg_message = ''no rows returned''\<rparr>"
           "\<lparr>pg_code = ''42501'', pg_message = ''row-level security''\<rparr>"]
      fallback_users_are_public [OF 2] e f
    by (simp add: authenticatedUser_def)
qed

section \<open>Two passes racing to create the profile\<close>

lemma created_and_refetched_agree:
  assumes "su_id suB = su_id suA" and "su_email suB = su_email suA"
  shows "existingAuthUser suB row = newUser suA row"
  using assms by (simp add: existingAuthUser_def newUser_def)

lemma duplicate_key_path:
  assumes "refresh_step env now sess = Inr (s', sofar)"
    and "fetch_result env = failed ''PGRST116'' m1"
    and "create_result env = failed ''23505'' m2"
    and "refetch_result env = found row"
  shows "handleSession env flag now (Some sess) =
     publish (sofar @ [SelectAppUser (su_id (sess_user sess)), InsertAppUser (new_profile (sess_user sess)),
        SelectAppUser (su_id (sess_user sess))]) (Some (existingAuthUser (sess_user sess) row))"
  using assms by (simp add: handleSession_def create_profile_def Let_def failed_def found_def)

lemma created_path:
  assumes "refresh_step env now sess = Inr (s', sofar)"
    and "fetch_result env = failed ''PGRST116'' m1"
    and "create_result env = found row"
  shows "handleSession env flag now (Some sess) =
     publish (sofar @ [SelectAppUser (su_id (sess_user sess)), InsertAppUser (new_profile (sess_user sess))])
       (Some (newUser (sess_user sess) row))"
  using assms by (simp add: handleSession_def create_profile_def Let_def failed_def found_def)

lemma written_append [simp]: "written (es @ fs) tbl = written fs (written es tbl)"
  by (simp add: written_def)

lemma written_simps [simp]:
  "written [] tbl = tbl"
  "written (InsertAppUser r # es) tbl = written es (snd (insert_single tbl r))"
  "written (SelectAppUser i # es) tbl = written es tbl"
  "written (SetUser u # es) tbl = written es tbl"
  "written (RefreshSession # es) tbl = written es tbl"
  by (simp_all add: written_def)

text \<open>
  C1. Two passes for the same identity (same id and e-mail) run against one store in which
  the identity has no row, neither stopped by the expiry check. Both fetch and find nothing;
  pass A inserts and succeeds; pass B inserts next, is refused with the duplicate-key code,
  and fetches again. Then the traces of the two passes are as given: A reads, inserts and
  publishes; B reads, tries the insert, reads again and publishes; each publishes once, and
  both publish and return the same user, built from the row that A created. When the store
  handles the inserts of the two traces in that order it ends with that one row for the
  identity.
\<close>

theorem duplicate_key_convergence:
  assumes "tbl (su_id (sess_user sessA)) = None"
    and "su_id (sess_user sessB) = su_id (sess_user sessA)"
    and "su_email (sess_user sessB) = su_email (sess_user sessA)"
    and "refresh_step envA nowA sessA = Inr (sA, sofarA)"
    and "refresh_step envB nowB sessB = Inr (sB, sofarB)"
    and "fetch_result envA = Returns (select_single tbl (su_id (sess_user sessA)))"
    and "fetch_result envB = Returns (select_single tbl (su_id (sess_user sessB)))"
    and "insert_single tbl (new_profile (sess_user sessA)) = (createdA, tbl1)"
    and "create_result envA = Returns createdA"
    and "insert_single tbl1 (new_profile (sess_user sessB)) = (createdB, tbl2)"
    and "create_result envB = Returns createdB"
    and "refetch_result envB = Returns (select_single tbl2 (su_id (sess_user sessB)))"
  shows "handleSession envA flagA nowA (Some sessA) =
           \<lparr>returned = Some (newUser (sess_user sessA) (selected (new_profile (sess_user sessA)))),
            effects = sofarA @
              [SelectAppUser (su_id (sess_user sessA)),
               InsertAppUser (new_profile (sess_user sessA)),
               SetUser (Some (newUser (sess_user sessA) (selected (new_profile (sess_user sessA)))))]\<rparr>
       \<and> handleSession envB flagB nowB (Some sessB) =
           \<lparr>returned = Some (newUser (sess_user sessA) (selected (new_profile (sess_user sessA)))),
            effects = sofarB @
              [SelectAppUser (su_id (sess_user sessA)),
               InsertAppUser (new_profile (sess_user sessB)),
               SelectAppUser (su_id (sess_user sessA)),
               SetUser (Some (newUser (sess_user sessA) (selected (new_profile (sess_user sessA)))))]\<rparr>
       \<and> published_of (effects (handleSession envA flagA nowA (Some sessA))) =
           [Some (newUser (sess_user sessA) (selected (new_profile (sess_user sessA))))]
       \<and> published_of (effects (handleSession envB flagB nowB (Some sessB))) =
           [Some (newUser (sess_user sessA) (selected (new_profile (sess_user sessA))))]
       \<and> written (effects (handleSession envB flagB nowB (Some sessB)))
            (written (effects (handleSession envA flagA nowA (Some sessA))) tbl) =
           tbl(su_id (sess_user sessA) \<mapsto> new_profile (sess_user sessA))
       \<and> map_option pg_code (qr_error createdB) = Some ''23505''
       \<and> tbl2 = tbl1
       \<and> tbl1 = tbl(su_id (sess_user sessA) \<mapsto> new_profile (sess_user sessA))"
proof -
  let ?a = "sess_user sessA" and ?b = "sess_user sessB"
  let ?row = "selected (new_profile ?a)"
  let ?user = "newUser ?a ?row"
  have idB: "ins_auth_id (new_profile ?b) = su_id ?a" and idA: "ins_auth_id (new_profile ?a) = su_id ?a"
    using assms(2) by (simp_all add: new_profile_def)
  have t1: "tbl1 = tbl(su_id ?a \<mapsto> new_profile ?a)" and cA: "createdA = \<lparr>qr_data = Some ?row, qr_error = None\<rparr>"
    using assms(1,8) idA by (auto simp add: insert_single_def)
  have t2: "tbl2 = tbl1"
    and cB: "createdB = \<lparr>qr_data = None, qr_error = Some \<lparr>pg_code = ''23505'', pg_message = ''duplicate key''\<rparr>\<rparr>"
    using assms(10) idB t1 by (auto simp add: insert_single_def)
  have fA: "fetch_result envA = failed ''PGRST116'' ''no rows returned''"
    using assms(1,6) by (simp add: select_single_def failed_def)
  have fB: "fetch_result envB = failed ''PGRST116'' ''no rows returned''"
    using assms(1,2,7) by (simp add: select_single_def failed_def)
  have rB: "refetch_result envB = found ?row"
    using assms(2,12) t1 t2 by (simp add: select_single_def found_def)
  have same: "existingAuthUser ?b ?row = ?user"
    using assms(2,3) by (rule created_and_refetched_agree)
  have A: "handleSession envA flagA nowA (Some sessA) =
      \<lparr>returned = Some ?user,
       effects = sofarA @ [SelectAppUser (su_id ?a), InsertAppUser (new_profile ?a), SetUser (Some ?user)]\<rparr>"
    using created_path [OF assms(4) fA] assms(9) cA by (simp add: found_def publish_def)
  have B: "handleSession envB flagB nowB (Some sessB) =
      \<lparr>returned = Some ?user,
       effects = sofarB @ [SelectAppUser (su_id ?a), InsertAppUser (new_profile ?b),
                           SelectAppUser (su_id ?a), SetUser (Some ?user)]\<rparr>"
    using duplicate_key_path [OF assms(5) fB _ rB] assms(2,11) cB same
    by (simp add: failed_def publish_def)
  have sA: "sofarA = [] \<or> sofarA = [RefreshSession]" and sB: "sofarB = [] \<or> sofarB = [RefreshSession]"
    using refresh_step_Inr_cases [OF assms(4)] refresh_step_Inr_cases [OF assms(5)] by auto
  have pA: "published_of (effects (handleSession envA flagA nowA (Some sessA))) = [Some ?user]"
    using sA by (auto simp add: A)
  have pB: "published_of (effects (handleSession envB flagB nowB (Some sessB))) = [Some ?user]"
    using sB by (auto simp add: B)
  have wA: "written (effects (handleSession envA flagA nowA (Some sessA))) tbl = tbl1"
    using sA assms(8) by (auto simp add: A)
  have wB: "written (effects (handleSession envB flagB nowB (Some sessB))) tbl1 = tbl2"
    using sB assms(10) by (auto simp add: B)
  have w: "written (effects (handleSession envB flagB nowB (Some sessB)))
            (written (effects (handleSession envA flagA nowA (Some sessA))) tbl) =
           tbl(su_id ?a \<mapsto> new_profile ?a)"
    using wA wB t2 t1 by simp
  have c: "map_option pg_code (qr_error createdB) = Some ''23505''" by (simp add: cB)
  from A B pA pB w c t2 t1 show ?thesis by (intro conjI)
qed

theorem duplicate_key_convergence_witness:
  "handleSession ex_racing_env False 1000 (Some ex_session) =
     \<lparr>returned = Some ex_citizen,
      effects = [SelectAppUser ''u-1'', InsertAppUser (new_profile ex_user),
                 SelectAppUser ''u-1'', SetUser (Some ex_citizen)]\<rparr>
   \<and> handleSession ex_creating_env True 1000 (Some ex_session) =
     \<lparr>returned = Some ex_citizen,
      effects = [SelectAppUser ''u-1'', InsertAppUser (new_profile ex_user),
                 SetUser (Some ex_citizen)]\<rparr>
   \<and> ex_citizen =
     \<lparr>au_id = ''u-1'', au_email = Some ''ana@example.org'', au_voterId = None,
      au_precinct = None, au_username = ''ana'', au_role = ''public'',
      au_registrationStatus = None\<rparr>"
proof -
  have id: "su_id ex_user = ''u-1''" by (simp add: ex_user_def)
  have 1: "ex_table (su_id (sess_user ex_session)) = None" by (simp add: ex_table_def)
  have 4: "refresh_step ex_creating_env 1000 ex_session = Inr (ex_session, [])"
    and 5: "refresh_step ex_racing_env 1000 ex_session = Inr (ex_session, [])" by simp_all
  have 6: "fetch_result ex_creating_env = Returns (select_single ex_table (su_id (sess_user ex_session)))"
    and 7: "fetch_result ex_racing_env = Returns (select_single ex_table (su_id (sess_user ex_session)))"
    by (simp_all add: ex_creating_env_def ex_racing_env_def id)
  have 8: "insert_single ex_table (new_profile (sess_user ex_session)) =
      (fst (insert_single ex_table (new_profile ex_user)), ex_table(''u-1'' \<mapsto> new_profile ex_user))"
    by (simp add: insert_single_def ex_table_def new_profile_def id)
  have 9: "create_result ex_creating_env = Returns (fst (insert_single ex_table (new_profile ex_user)))"
    by (simp add: ex_creating_env_def)
  have 10: "insert_single (ex_table(''u-1'' \<mapsto> new_profile ex_user)) (new_profile (sess_user ex_session)) =
      (fst (insert_single (ex_table(''u-1'' \<mapsto> new_profile ex_user)) (new_profile ex_user)),
       ex_table(''u-1'' \<mapsto> new_profile ex_user))"
    by (simp add: insert_single_def new_profile_def id)
  have 11: "create_result ex_racing_env =
      Returns (fst (insert_single (ex_table(''u-1'' \<mapsto> new_profile ex_user)) (new_profile ex_user)))"
    by (simp add: ex_racing_env_def)
  have 12: "refetch_result ex_racing_env =
      Returns (select_single (ex_table(''u-1'' \<mapsto> new_profile ex_user)) (su_id (sess_user ex_session)))"
    by (simp add: ex_racing_env_def id)
  have c: "newUser ex_user (selected (new_profile ex_user)) = ex_citizen"
    by (simp add: newUser_def selected_def new_profile_def metadata_username_def or_empty_def
        ex_user_def ex_citizen_def authenticatedUser_def js_or_def truthy_def)
  have e: "ex_citizen =
     \<lparr>au_id = ''u-1'', au_email = Some ''ana@example.org'', au_voterId = None,
      au_precinct = None, au_username = ''ana'', au_role = ''public'',
      au_registrationStatus = None\<rparr>"
    by (simp add: ex_citizen_def authenticatedUser_def ex_user_def js_or_def truthy_def or_empty_def)
  show ?thesis
    using duplicate_key_convergence [OF 1 refl refl 4 5 6 7 8 9 10 11 12, where flagA = True and flagB = False] e
    by (simp add: c id)
qed

section \<open>The expiry check\<close>

lemma create_profile_no_refresh:
  "\<exists>rest. effects (create_profile env flag su sofar) = sofar @ rest \<and> RefreshSession \<notin> set rest"
  by (simp add: create_profile_def Let_def toast_unless_def split: js_result.split option.split)

lemma after_refresh_step_no_refresh:
  assumes "refresh_step env now sess = Inr (s', sofar)"
  shows "\<exists>rest. effects (handleSession env flag now (Some sess)) = sofar @ rest \<and> RefreshSession \<notin> set rest"
proof -
  let ?sel = "SelectAppUser (su_id (sess_user sess))"
  obtain rest where rest: "effects (create_profile env flag (sess_user sess) (sofar @ [?sel])) =
      (sofar @ [?sel]) @ rest" "RefreshSession \<notin> set rest"
    using create_profile_no_refresh by blast
  then have "effects (create_profile env flag (sess_user sess) (sofar @ [?sel])) = sofar @ (?sel # rest)
      \<and> RefreshSession \<notin> set (?sel # rest)" by simp
  then have c: "\<exists>rest. effects (create_profile env flag (sess_user sess) (sofar @ [?sel])) = sofar @ rest
      \<and> RefreshSession \<notin> set rest" by blast
  show ?thesis
    using assms c
    by (simp add: handleSession_def Let_def toast_unless_def split: js_result.split option.split)
qed

text \<open>
  C2, as the code has it. For a session whose \<^verbatim>\<open>expires_at\<close> is present, not zero and
  in the past, the pass starts with a call of \<^verbatim>\<open>refreshSession\<close> and makes no other.
  When that call answers with an error (and \<^verbatim>\<open>signOut\<close> returns), the pass signs out,
  publishes \<^verbatim>\<open>null\<close> and returns \<^verbatim>\<open>null\<close>, and that is all it does: it shows no
  notification.
\<close>

theorem expired_session_refreshes_once:
  assumes "expires_at sess = Some e" and "e \<noteq> 0" and "e * 1000 < now"
  shows "(\<exists>rest. effects (handleSession env flag now (Some sess)) = RefreshSession # rest
            \<and> RefreshSession \<notin> set rest)
       \<and> (refreshSession_result env = Returns r \<and> refresh_error r = Some message
            \<and> signOut_result env = Returns ()
          \<longrightarrow> handleSession env flag now (Some sess) =
                \<lparr>returned = None, effects = [RefreshSession, SignOut, SetUser None]\<rparr>)"
proof -
  have expired: "session_expired now sess"
    using assms by (simp add: session_expired_def)
  have first: "\<exists>rest. effects (handleSession env flag now (Some sess)) = RefreshSession # rest
            \<and> RefreshSession \<notin> set rest"
  proof (cases "refresh_step env now sess")
    case (Inl out)
    then have "effects out = [RefreshSession, ShowToast unexpected_toast, SetUser None]
        \<or> effects out = [RefreshSession, SignOut, ShowToast unexpected_toast, SetUser None]
        \<or> effects out = [RefreshSession, SignOut, SetUser None]"
      using expired
      by (auto simp add: refresh_step_def split: js_result.splits option.splits)
    with Inl show ?thesis by (auto simp add: handleSession_def Let_def)
  next
    case (Inr p)
    obtain s' sofar where p: "p = (s', sofar)" by (cases p)
    with Inr expired have "sofar = [RefreshSession]"
      by (auto dest: refresh_step_Inr_cases)
    with after_refresh_step_no_refresh [OF Inr [unfolded p], of flag] show ?thesis by simp
  qed
  have second: "refreshSession_result env = Returns r \<and> refresh_error r = Some message
            \<and> signOut_result env = Returns ()
          \<longrightarrow> handleSession env flag now (Some sess) =
                \<lparr>returned = None, effects = [RefreshSession, SignOut, SetUser None]\<rparr>"
    using expired by (simp add: handleSession_def refresh_step_def publish_def Let_def)
  from first second show ?thesis ..
qed

lemma ex_session_expired: "session_expired 1800000000000 ex_session"
  by (simp add: session_expired_def ex_session_def)

theorem expired_session_refreshes_once_witness:
  "(\<exists>rest. effects (handleSession ex_refresh_failed_env False 1800000000000 (Some ex_session)) =
        RefreshSession # rest \<and> RefreshSession \<notin> set rest)
   \<and> handleSession ex_refresh_failed_env False 1800000000000 (Some ex_session) =
        \<lparr>returned = None, effects = [RefreshSession, SignOut, SetUser None]\<rparr>"
proof -
  have 1: "expires_at ex_session = Some 1700000000" by (simp add: ex_session_def)
  have 2: "(1700000000::int) \<noteq> 0" and 3: "(1700000000::int) * 1000 < 1800000000000" by simp_all
  have 4: "refreshSession_result ex_refresh_failed_env =
      Returns \<lparr>refreshed_session = None, refresh_error = Some ''Invalid Refresh Token''\<rparr>"
    and 5: "signOut_result ex_refresh_failed_env = Returns ()"
    by (simp_all add: ex_refresh_failed_env_def ex_env_def)
  show ?thesis
    using expired_session_refreshes_once [OF 1 2 3, of ex_refresh_failed_env False
        "\<lparr>refreshed_session = None, refresh_error = Some ''Invalid Refresh Token''\<rparr>"
        "''Invalid Refresh Token''"] 4 5
    by simp
qed

text \<open>The claim as the specification words it asks for a ``session expired'' notification
  when the refresh fails. Here the refresh fails and the pass shows no notification at
  all.\<close>

theorem refresh_failure_shows_no_toast:
  "session_expired 1800000000000 ex_session
   \<and> refresh_error_of (refreshSession_result ex_refresh_failed_env) = Some ''Invalid Refresh Token''
   \<and> toasts_of (effects (handleSession ex_refresh_failed_env False 1800000000000 (Some ex_session))) = []"
  by (simp add: ex_session_expired handleSession_def refresh_step_def ex_refresh_failed_env_def
      ex_env_def Let_def refresh_error_of_def)

section \<open>A pass always resolves\<close>

lemma rejects_simps [simp]: "rejects (Throws e) = True" "rejects (Returns x) = False"
  by (simp_all add: rejects_def)

lemma create_profile_rejected:
  assumes "sofar = pre @ [SelectAppUser i]" and "pre = [] \<or> pre = [RefreshSession]"
    and "\<not> rejects (fetch_result env)"
    and "pre = [RefreshSession] \<longrightarrow> \<not> rejects (refreshSession_result env)"
    and "rejected_call env (effects (create_profile env flag su sofar))"
  shows "returned (create_profile env flag su sofar) = None"
  using assms
  by (auto simp add: create_profile_def Let_def rejected_call_def toast_unless_def
      split: js_result.splits option.splits)


lemma refresh_step_Inl_returned:
  "refresh_step env now sess = Inl out \<Longrightarrow> returned out = None"
  by (auto simp add: refresh_step_def split: if_splits js_result.splits option.splits)

lemma refresh_step_Inr_returns:
  "refresh_step env now sess = Inr (s', [RefreshSession]) \<Longrightarrow> \<not> rejects (refreshSession_result env)"
  by (auto simp add: refresh_step_def split: if_splits js_result.splits option.splits)

lemma handleSession_rejected:
  assumes "rejected_call env (effects (handleSession env flag now session))"
  shows "returned (handleSession env flag now session) = None"
proof (cases session)
  case None
  then show ?thesis by (simp add: handleSession_def)
next
  case (Some sess)
  show ?thesis
  proof (cases "refresh_step env now sess")
    case (Inl out)
    with Some show ?thesis
      by (simp add: handleSession_def Let_def refresh_step_Inl_returned)
  next
    case (Inr p)
    obtain s' pre where p: "p = (s', pre)" by (cases p)
    have pre: "pre = [] \<or> pre = [RefreshSession]"
      using Inr p by (auto dest: refresh_step_Inr_cases)
    have ref: "pre = [RefreshSession] \<longrightarrow> \<not> rejects (refreshSession_result env)"
      using Inr p by (auto dest: refresh_step_Inr_returns)
    let ?sel = "SelectAppUser (su_id (sess_user sess))"
    show ?thesis
    proof (cases "fetch_result env")
      case (Throws e)
      with Some Inr p show ?thesis by (simp add: handleSession_def Let_def)
    next
      case (Returns fr)
      show ?thesis
      proof (cases "\<exists>fe. qr_error fr = Some fe \<and> pg_code fe = ''PGRST116''")
        case True
        then have eq: "handleSession env flag now session =
            create_profile env flag (sess_user sess) (pre @ [?sel])"
          using Some Inr p Returns by (auto simp add: handleSession_def Let_def)
        have "\<not> rejects (fetch_result env)" using Returns by simp
        from create_profile_rejected [OF refl pre this ref assms [unfolded eq]] eq
        show ?thesis by simp
      next
        case False
        with assms Some Inr p Returns pre ref show ?thesis
          by (auto simp add: handleSession_def Let_def rejected_call_def toast_unless_def
              split: option.splits if_splits)
      qed
    qed
  qed
qed

lemma create_profile_toasts:
  assumes "toasts_of sofar = []"
  shows "(returned (create_profile env flag su sofar) \<noteq> None \<longrightarrow>
            toasts_of (effects (create_profile env flag su sofar)) = [])
       \<and> (flag \<longrightarrow> create_failed_toast \<notin> set (toasts_of (effects (create_profile env flag su sofar)))
                \<and> fetch_failed_toast \<notin> set (toasts_of (effects (create_profile env flag su sofar))))"
  using assms
  by (auto simp add: create_profile_def Let_def unexpected_toast_def create_failed_toast_def
      fetch_failed_toast_def split: js_result.splits option.splits if_splits)

lemma handleSession_toasts:
  "(returned (handleSession env flag now session) \<noteq> None \<longrightarrow>
      toasts_of (effects (handleSession env flag now session)) = [])
   \<and> (flag \<longrightarrow> create_failed_toast \<notin> set (toasts_of (effects (handleSession env flag now session)))
            \<and> fetch_failed_toast \<notin> set (toasts_of (effects (handleSession env flag now session))))"
proof (cases session)
  case None
  then show ?thesis by (simp add: handleSession_def)
next
  case (Some sess)
  show ?thesis
  proof (cases "refresh_step env now sess")
    case (Inl out)
    then have "returned out = None \<and> (toasts_of (effects out) = [] \<or> toasts_of (effects out) = [unexpected_toast])"
      by (auto simp add: refresh_step_def split: if_splits js_result.splits option.splits)
    with Some Inl show ?thesis
      by (auto simp add: handleSession_def Let_def unexpected_toast_def create_failed_toast_def
          fetch_failed_toast_def)
  next
    case (Inr p)
    obtain s' pre where p: "p = (s', pre)" by (cases p)
    let ?sel = "SelectAppUser (su_id (sess_user sess))"
    have pre: "toasts_of (pre @ [?sel]) = []"
      using Inr p by (auto dest: refresh_step_Inr_cases)
    show ?thesis
    proof (cases "fetch_result env")
      case (Throws e)
      with Some Inr p pre show ?thesis
        by (simp add: handleSession_def Let_def unexpected_toast_def create_failed_toast_def
          fetch_failed_toast_def)
    next
      case (Returns fr)
      show ?thesis
      proof (cases "\<exists>fe. qr_error fr = Some fe \<and> pg_code fe = ''PGRST116''")
        case True
        then have eq: "handleSession env flag now session =
            create_profile env flag (sess_user sess) (pre @ [?sel])"
          using Some Inr p Returns by (auto simp add: handleSession_def Let_def)
        show ?thesis unfolding eq by (rule create_profile_toasts [OF pre])
      next
        case False
        with Some Inr p Returns pre show ?thesis
          by (auto simp add: handleSession_def Let_def unexpected_toast_def create_failed_toast_def
              fetch_failed_toast_def split: option.splits if_splits)
      qed
    qed
  qed
qed


lemma fetch_failure_path:
  assumes "refresh_step env now sess = Inr (s', pre)"
    and "error_of (fetch_result env) = Some fe" and "pg_code fe \<noteq> ''PGRST116''"
    and "pg_code fe \<noteq> ''406''" and "\<not> str_includes (pg_message fe) ''Not Acceptable''"
  shows "handleSession env flag now (Some sess) =
     publish (pre @ [SelectAppUser (su_id (sess_user sess))] @ toast_unless flag fetch_failed_toast) None"
  using assms
  by (auto simp add: handleSession_def Let_def error_of_def split: js_result.splits)

lemma create_failure_path:
  assumes "refresh_step env now sess = Inr (s', pre)"
    and "error_of (fetch_result env) = Some fe" and "pg_code fe = ''PGRST116''"
    and "error_of (create_result env) = Some ce"
    and "pg_code ce \<noteq> ''23505''" and "pg_code ce \<noteq> ''42501''"
  shows "handleSession env flag now (Some sess) =
     publish (pre @ [SelectAppUser (su_id (sess_user sess)), InsertAppUser (new_profile (sess_user sess))]
                @ toast_unless flag create_failed_toast) None"
  using assms
  by (auto simp add: handleSession_def create_profile_def Let_def error_of_def split: js_result.splits)

text \<open>
  What holds of every pass. Whatever the session and whatever the remote services answer, a
  pass ends by publishing the value it returns, a user or \<^verbatim>\<open>null\<close>, and publishes nothing
  before that. If one of the calls it made (refresh, sign-out, reading the profile, creating
  it, reading it again) was rejected, it returns \<^verbatim>\<open>null\<close>. A pass that returns a user shows
  no notification. A profile read that fails with an error the pass does not recover from,
  or a creation that does, resolves to \<^verbatim>\<open>null\<close>, and the notification for it is shown
  exactly when the password-update flag that the pass holds is not set.
\<close>

lemma handleSession_always_resolves:
  "(\<exists>sofar. effects (handleSession env flag now session) =
              sofar @ [SetUser (returned (handleSession env flag now session))]
            \<and> published_of sofar = [])
   \<and> (rejected_call env (effects (handleSession env flag now session)) \<longrightarrow>
        returned (handleSession env flag now session) = None)
   \<and> (returned (handleSession env flag now session) \<noteq> None \<longrightarrow>
        toasts_of (effects (handleSession env flag now session)) = [])
   \<and> (flag \<longrightarrow>
        create_failed_toast \<notin> set (toasts_of (effects (handleSession env flag now session)))
        \<and> fetch_failed_toast \<notin> set (toasts_of (effects (handleSession env flag now session))))
   \<and> (refresh_step env now sess = Inr (s', pre) \<and> error_of (fetch_result env) = Some fe
        \<and> pg_code fe \<noteq> ''PGRST116'' \<and> pg_code fe \<noteq> ''406''
        \<and> \<not> str_includes (pg_message fe) ''Not Acceptable'' \<longrightarrow>
        returned (handleSession env flag now (Some sess)) = None
        \<and> toasts_of (effects (handleSession env flag now (Some sess))) =
            (if flag then [] else [fetch_failed_toast]))
   \<and> (refresh_step env now sess = Inr (s', pre) \<and> error_of (fetch_result env) = Some fe
        \<and> pg_code fe = ''PGRST116'' \<and> error_of (create_result env) = Some ce
        \<and> pg_code ce \<noteq> ''23505'' \<and> pg_code ce \<noteq> ''42501'' \<longrightarrow>
        returned (handleSession env flag now (Some sess)) = None
        \<and> toasts_of (effects (handleSession env flag now (Some sess))) =
            (if flag then [] else [create_failed_toast]))"
proof (intro conjI impI)
  obtain mid where mid: "effects (handleSession env flag now session) =
      mid @ [SetUser (returned (handleSession env flag now session))]"
    using handleSession_last by blast
  have "published_of (mid @ [SetUser (returned (handleSession env flag now session))]) =
      [returned (handleSession env flag now session)]"
    using published_once [of env flag now session] mid by simp
  then have "published_of mid = []" by simp
  with mid show "\<exists>sofar. effects (handleSession env flag now session) =
              sofar @ [SetUser (returned (handleSession env flag now session))]
            \<and> published_of sofar = []" by blast
next
  assume "rejected_call env (effects (handleSession env flag now session))"
  then show "returned (handleSession env flag now session) = None"
    by (rule handleSession_rejected)
next
  assume "returned (handleSession env flag now session) \<noteq> None"
  then show "toasts_of (effects (handleSession env flag now session)) = []"
    using handleSession_toasts [of env flag now session] by simp
next
  assume flag
  then show "create_failed_toast \<notin> set (toasts_of (effects (handleSession env flag now session)))"
    and "fetch_failed_toast \<notin> set (toasts_of (effects (handleSession env flag now session)))"
    using handleSession_toasts [of env flag now session] by simp_all
next
  assume a: "refresh_step env now sess = Inr (s', pre) \<and> error_of (fetch_result env) = Some fe
        \<and> pg_code fe \<noteq> ''PGRST116'' \<and> pg_code fe \<noteq> ''406''
        \<and> \<not> str_includes (pg_message fe) ''Not Acceptable''"
  then have pre: "toasts_of pre = []" by (auto dest: refresh_step_Inr_cases)
  from a have eq: "handleSession env flag now (Some sess) =
     publish (pre @ [SelectAppUser (su_id (sess_user sess))] @ toast_unless flag fetch_failed_toast) None"
    using fetch_failure_path [of env now sess s' pre fe flag] by simp
  show "returned (handleSession env flag now (Some sess)) = None"
    and "toasts_of (effects (handleSession env flag now (Some sess))) =
            (if flag then [] else [fetch_failed_toast])"
    using pre by (simp_all add: eq)
next
  assume a: "refresh_step env now sess = Inr (s', pre) \<and> error_of (fetch_result env) = Some fe
        \<and> pg_code fe = ''PGRST116'' \<and> error_of (create_result env) = Some ce
        \<and> pg_code ce \<noteq> ''23505'' \<and> pg_code ce \<noteq> ''42501''"
  then have pre: "toasts_of pre = []" by (auto dest: refresh_step_Inr_cases)
  from a have eq: "handleSession env flag now (Some sess) =
     publish (pre @ [SelectAppUser (su_id (sess_user sess)), InsertAppUser (new_profile (sess_user sess))]
                @ toast_unless flag create_failed_toast) None"
    using create_failure_path [of env now sess s' pre fe ce flag] by simp
  show "returned (handleSession env flag now (Some sess)) = None"
    and "toasts_of (effects (handleSession env flag now (Some sess))) =
            (if flag then [] else [create_failed_toast])"
    using pre by (simp_all add: eq)
qed

text \<open>
  C9, at concrete inputs. The pass holds the password-update flag set, and the request that
  creates the profile is rejected. The pass catches the rejection and returns \<^verbatim>\<open>null\<close>,
  as the claim says, but it shows the ``Unexpected Error'' notification although the flag is
  set; with the same flag, the guarded branch for a creation error shows nothing. And with
  the flag not set, when the second read of the profile answers with an error, the pass
  returns \<^verbatim>\<open>null\<close> and shows no notification at all.
\<close>

theorem unexpected_error_ignores_the_flag:
  "handleSession ex_rejecting_env True 1000 (Some ex_session) =
     \<lparr>returned = None,
      effects = [SelectAppUser ''u-1'', InsertAppUser (new_profile ex_user),
                 ShowToast unexpected_toast, SetUser None]\<rparr>
   \<and> handleSession ex_create_failed_env True 1000 (Some ex_session) =
     \<lparr>returned = None,
      effects = [SelectAppUser ''u-1'', InsertAppUser (new_profile ex_user), SetUser None]\<rparr>
   \<and> handleSession ex_refetch_failed_env False 1000 (Some ex_session) =
     \<lparr>returned = None,
      effects = [SelectAppUser ''u-1'', InsertAppUser (new_profile ex_user),
                 SelectAppUser ''u-1'', SetUser None]\<rparr>"
proof -
  have id: "su_id ex_user = ''u-1''" by (simp add: ex_user_def)
  have 1: "handleSession ex_rejecting_env True 1000 (Some ex_session) =
     \<lparr>returned = None,
      effects = [SelectAppUser ''u-1'', InsertAppUser (new_profile ex_user),
                 ShowToast unexpected_toast, SetUser None]\<rparr>"
    by (simp add: handleSession_def create_profile_def Let_def ex_rejecting_env_def ex_env_def
        failed_def unexpected_error_def publish_def id)
  have 2: "handleSession ex_create_failed_env True 1000 (Some ex_session) =
     \<lparr>returned = None,
      effects = [SelectAppUser ''u-1'', InsertAppUser (new_profile ex_user), SetUser None]\<rparr>"
    by (simp add: handleSession_def create_profile_def Let_def ex_create_failed_env_def ex_env_def
        failed_def toast_unless_def publish_def id)
  have 3: "handleSession ex_refetch_failed_env False 1000 (Some ex_session) =
     \<lparr>returned = None,
      effects = [SelectAppUser ''u-1'', InsertAppUser (new_profile ex_user),
                 SelectAppUser ''u-1'', SetUser None]\<rparr>"
    by (simp add: handleSession_def create_profile_def Let_def ex_refetch_failed_env_def ex_env_def
        failed_def publish_def id)
  from 1 2 3 show ?thesis by (intro conjI)
qed

section \<open>Where the route guard sends whom\<close>

text \<open>
  C6. Once loading is over: an officer on a path that starts with \<^verbatim>\<open>/public/\<close> is sent to
  \<^verbatim>\<open>/dashboard\<close>; a public user on a path that starts with \<^verbatim>\<open>/dashboard\<close> is sent to
  \<^verbatim>\<open>/public/home\<close>; without a user, a path is left alone when it is one of the listed
  paths or contains \<^verbatim>\<open>/reset-password\<close> or \<^verbatim>\<open>/forgot-password\<close>, and is sent to
  \<^verbatim>\<open>/auth\<close> otherwise. While loading nothing is pushed.
\<close>

theorem route_guard_redirects:
  "(au_role u = ''officer'' \<and> pathname = ''/public/'' @ rest \<longrightarrow>
      route_guard False (Some u) pathname = Some ''/dashboard'')
   \<and> (au_role u = ''public'' \<and> pathname = ''/dashboard'' @ rest \<longrightarrow>
      route_guard False (Some u) pathname = Some ''/public/home'')
   \<and> route_guard False None pathname =
       (if pathname \<in> set [''/public/home'', ''/public/track-status'',
              ''/public/application-submitted'', ''/public/profile'', ''/public/faq'',
              ''/public/schedule-biometrics'', ''/auth'', ''/'', ''/landing'',
              ''/public/forgot-password'', ''/public/reset-password'']
           \<or> (\<exists>before after. pathname = before @ ''/reset-password'' @ after)
           \<or> (\<exists>before after. pathname = before @ ''/forgot-password'' @ after)
        then None else Some ''/auth'')
   \<and> route_guard True usr pathname = None"
proof (intro conjI impI)
  assume "au_role u = ''officer'' \<and> pathname = ''/public/'' @ rest"
  then show "route_guard False (Some u) pathname = Some ''/dashboard''"
    by (simp add: route_guard_def startsWith_def)
next
  assume "au_role u = ''public'' \<and> pathname = ''/dashboard'' @ rest"
  then show "route_guard False (Some u) pathname = Some ''/public/home''"
    by (simp add: route_guard_def startsWith_def)
next
  show "route_guard False None pathname =
       (if pathname \<in> set [''/public/home'', ''/public/track-status'',
              ''/public/application-submitted'', ''/public/profile'', ''/public/faq'',
              ''/public/schedule-biometrics'', ''/auth'', ''/'', ''/landing'',
              ''/public/forgot-password'', ''/public/reset-password'']
           \<or> (\<exists>before after. pathname = before @ ''/reset-password'' @ after)
           \<or> (\<exists>before after. pathname = before @ ''/forgot-password'' @ after)
        then None else Some ''/auth'')"
    unfolding route_guard_def isPublicPath_def publicUserAuthenticatedPaths_def
      publicUnauthenticatedPaths_def str_includes_iff
    by (simp del: str_includes.simps)
next
  show "route_guard True usr pathname = None"
    by (simp add: route_guard_def)
qed

theorem route_guard_redirects_witness:
  "route_guard False (Some ex_officer) ''/public/profile'' = Some ''/dashboard''
   \<and> route_guard False (Some ex_citizen) ''/dashboard/applications'' = Some ''/public/home''"
proof -
  have o: "au_role ex_officer = ''officer'' \<and> ''/public/profile'' = ''/public/'' @ ''profile''"
    and c: "au_role ex_citizen = ''public'' \<and> ''/dashboard/applications'' = ''/dashboard'' @ ''/applications''"
    by (simp_all add: ex_officer_def ex_citizen_def authenticatedUser_def)
  note g = route_guard_redirects [THEN conjunct1, THEN mp, OF o]
    route_guard_redirects [THEN conjunct2, THEN conjunct1, THEN mp, OF c]
  show ?thesis by (intro conjI g)
qed

lemma route_guard_examples:
  "route_guard False None ''/dashboard'' = Some ''/auth''"
  "route_guard False None ''/public/faq'' = None"
  "route_guard False None ''/account/reset-password/confirm'' = None"
  "route_guard False (Some ex_officer) ''/public/forgot-password'' = Some ''/dashboard''"
  "route_guard False (Some ex_citizen) ''/public/profile'' = None"
  by (simp_all add: route_guard_def isPublicPath_def publicUserAuthenticatedPaths_def
      publicUnauthenticatedPaths_def startsWith_def ex_officer_def ex_citizen_def
      authenticatedUser_def)

section \<open>Logging in\<close>

lemma apply_effect_keeps [simp]:
  "pushed (apply_effect e st) = pushed st"
  "passes (apply_effect e st) = passes st"
  "isLoading (apply_effect e st) = isLoading st"
  by (cases e; simp add: showToast_def)+

lemma pushed_fold_apply_effect [simp]: "pushed (fold apply_effect es st) = pushed st"
  by (induction es arbitrary: st) simp_all

lemma passes_fold_apply_effect [simp]: "passes (fold apply_effect es st) = passes st"
  by (induction es arbitrary: st) simp_all

lemma isLoading_fold_apply_effect [simp]: "isLoading (fold apply_effect es st) = isLoading st"
  by (induction es arbitrary: st) simp_all

lemma user_run_pass_handleSession:
  "user (run_pass (pass_of env flag) now s st) = returned (handleSession env flag (int now) s)"
proof -
  obtain mid where "effects (handleSession env flag (int now) s) =
      mid @ [SetUser (returned (handleSession env flag (int now) s))]"
    using handleSession_last by blast
  then show ?thesis by (simp add: run_pass_def pass_of_def)
qed

lemma passes_run_pass [simp]: "passes (run_pass hs now s st) = passes st @ [s]"
  by (simp add: run_pass_def)

lemma pushed_run_pass [simp]: "pushed (run_pass hs now s st) = pushed st"
  by (simp add: run_pass_def)

lemma isLoading_run_pass [simp]: "isLoading (run_pass hs now s st) = isLoading st"
  by (simp add: run_pass_def)







section \<open>Updating the profile\<close>

lemma updateUserProfile_leaves_app_user:
  "snd (snd (updateUserProfile hs now username update_answer getSession_answer (st, db))) ''app_user''
     = db ''app_user''"
  by (simp add: updateUserProfile_def Let_def split: option.split js_result.split)

lemma updateUserProfile_returns:
  "fst (updateUserProfile hs now username update_answer getSession_answer (st, db)) = Returns True
     \<longleftrightarrow> user st \<noteq> None \<and> update_answer = Returns None \<and> \<not> rejects getSession_answer"
  by (auto simp add: updateUserProfile_def Let_def split: option.split js_result.split)

text \<open>
  C4, at a concrete input. The user \<^verbatim>\<open>u-1\<close> is logged in with the username \<^verbatim>\<open>ana\<close> and
  asks for the username \<^verbatim>\<open>maria\<close>; the store accepts the update. \<^verbatim>\<open>updateUserProfile\<close>
  returns \<^verbatim>\<open>true\<close> and has written to the table \<^verbatim>\<open>profile\<close>; the row of the table
  \<^verbatim>\<open>app_user\<close>, which is the one a pass reads, still says \<^verbatim>\<open>ana\<close>, and so does the user
  published by the pass that \<^verbatim>\<open>updateUserProfile\<close> starts.
\<close>

theorem profile_update_misses_app_user:
  "updateUserProfile (pass_of (store_env ex_database_after ex_user) False) 1000 (Some ''maria'')
       (Returns None) (Returns (Some ex_session)) (ex_logged_in, ex_database)
     = (Returns True,
        ex_logged_in\<lparr>user := Some ex_citizen, shown := [profile_updated_toast],
                     passes := [Some ex_session]\<rparr>,
        ex_database_after)
   \<and> map_option ins_username (ex_database_after ''profile'' ''u-1'') = Some ''maria''
   \<and> map_option ins_username (ex_database_after ''app_user'' ''u-1'') = Some ''ana''
   \<and> map_option au_username (Some ex_citizen) = Some ''ana''"
proof -
  have u: "user ex_logged_in = Some ex_citizen" "au_id ex_citizen = ''u-1''"
    by (simp_all add: ex_logged_in_def ex_citizen_def authenticatedUser_def ex_user_def)
  have db: "ex_database(''profile'' := update_username (ex_database ''profile'') ''u-1'' (Some ''maria''))
      = ex_database_after"
    by (simp add: ex_database_after_def ex_database_def update_username_def)
  have f: "select_single (ex_database_after ''app_user'') ''u-1'' =
      \<lparr>qr_data = Some \<lparr>row_role = ''public'', row_username = Some ''ana''\<rparr>, qr_error = None\<rparr>"
    by (simp add: ex_database_after_def ex_database_def select_single_def selected_def
        new_profile_def metadata_username_def or_empty_def ex_user_def)
  have f': "select_single (ex_database_after ''app_user'') (su_id ex_user) =
      \<lparr>qr_data = Some \<lparr>row_role = ''public'', row_username = Some ''ana''\<rparr>, qr_error = None\<rparr>"
    using f by (simp add: ex_user_def)
  have p: "handleSession (store_env ex_database_after ex_user) False 1000 (Some ex_session) =
      publish [SelectAppUser ''u-1'', SelectApplicant ''u-1''] (Some ex_citizen)"
    by (simp add: handleSession_def store_env_def f' Let_def applicant_fields_def
        ex_citizen_def) (simp add: ex_user_def)
  have r: "run_pass (pass_of (store_env ex_database_after ex_user) False) 1000 (Some ex_session)
        (showToast profile_updated_toast ex_logged_in) =
      ex_logged_in\<lparr>user := Some ex_citizen, shown := [profile_updated_toast],
                     passes := [Some ex_session]\<rparr>"
    by (simp add: run_pass_def pass_of_def p showToast_def ex_logged_in_def initial_provider_def)
  have 1: "updateUserProfile (pass_of (store_env ex_database_after ex_user) False) 1000 (Some ''maria'')
       (Returns None) (Returns (Some ex_session)) (ex_logged_in, ex_database)
     = (Returns True,
        ex_logged_in\<lparr>user := Some ex_citizen, shown := [profile_updated_toast],
                     passes := [Some ex_session]\<rparr>,
        ex_database_after)"
    by (simp add: updateUserProfile_def u db r Let_def)
  have 2: "map_option ins_username (ex_database_after ''profile'' ''u-1'') = Some ''maria''"
    and 3: "map_option ins_username (ex_database_after ''app_user'' ''u-1'') = Some ''ana''"
    by (simp_all add: ex_database_after_def ex_database_def new_profile_def metadata_username_def
        or_empty_def ex_user_def)
  have 4: "map_option au_username (Some ex_citizen) = Some ''ana''"
    by (simp add: ex_citizen_def authenticatedUser_def js_or_def truthy_def or_empty_def)
  from 1 2 3 4 show ?thesis by (intro conjI)
qed

section \<open>Timers\<close>

lemma apply_effect_keeps_timers [simp]:
  "timers (apply_effect e st) = timers st"
  "timeoutId (apply_effect e st) = timeoutId st"
  "next_timer (apply_effect e st) = next_timer st"
  "isProcessingPasswordUpdate (apply_effect e st) = isProcessingPasswordUpdate st"
  "isPasswordUpdateFlow (apply_effect e st) = isPasswordUpdateFlow st"
  by (cases e; simp add: showToast_def)+

lemma timers_fold_apply_effect [simp]: "timers (fold apply_effect es st) = timers st"
  by (induction es arbitrary: st) simp_all

lemma timeoutId_fold_apply_effect [simp]: "timeoutId (fold apply_effect es st) = timeoutId st"
  by (induction es arbitrary: st) simp_all

lemma next_timer_fold_apply_effect [simp]: "next_timer (fold apply_effect es st) = next_timer st"
  by (induction es arbitrary: st) simp_all

lemma processing_fold_apply_effect [simp]:
  "isProcessingPasswordUpdate (fold apply_effect es st) = isProcessingPasswordUpdate st"
  by (induction es arbitrary: st) simp_all

lemma flow_fold_apply_effect [simp]:
  "isPasswordUpdateFlow (fold apply_effect es st) = isPasswordUpdateFlow st"
  by (induction es arbitrary: st) simp_all

lemma shown_apply_effect: "shown (apply_effect e st) = shown st @ toasts_of [e]"
  by (cases e) (simp_all add: showToast_def)

lemma shown_fold_apply_effect: "shown (fold apply_effect es st) = shown st @ toasts_of es"
proof (induction es arbitrary: st)
  case Nil
  show ?case by simp
next
  case (Cons e es)
  have "toasts_of (e # es) = toasts_of [e] @ toasts_of es"
    using toasts_of_simps(9) [of "[e]" es] by simp
  then show ?case by (simp add: Cons shown_apply_effect)
qed

lemma run_pass_keeps [simp]:
  "timers (run_pass hs now s st) = timers st"
  "timeoutId (run_pass hs now s st) = timeoutId st"
  "next_timer (run_pass hs now s st) = next_timer st"
  "isProcessingPasswordUpdate (run_pass hs now s st) = isProcessingPasswordUpdate st"
  "isPasswordUpdateFlow (run_pass hs now s st) = isPasswordUpdateFlow st"
  by (simp_all add: run_pass_def)

lemma shown_run_pass: "shown (run_pass hs now s st) = shown st @ toasts_of (effects (hs now s))"
  by (simp add: run_pass_def shown_fold_apply_effect)

lemma fire_keeps [simp]:
  "timers (fire hs now a st) = timers st"
  "timeoutId (fire hs now a st) = timeoutId st"
  "next_timer (fire hs now a st) = next_timer st"
  by (cases a; simp)+

lemma fire_flag_timer:
  assumes "debounce_of (i, d, a) = []"
  shows "passes (fire hs now a st) = passes st" and "user (fire hs now a st) = user st"
    and "shown (fire hs now a st) = shown st"
  using assms by (cases a; simp)+

lemma processing_fire:
  "isProcessingPasswordUpdate (fire hs now a st) =
     (isProcessingPasswordUpdate st \<and> a \<noteq> ClearProcessingPasswordUpdate)"
  by (cases a) simp_all

lemma find_id:
  assumes "find (\<lambda>y. fst y = i) xs = Some x"
  shows "x \<in> set xs" and "fst x = i"
  using assms by (auto simp add: find_Some_iff)

lemma find_distinct_id:
  assumes "distinct (map fst xs)" and "x \<in> set xs"
  shows "find (\<lambda>y. fst y = fst x) xs = Some x"
  using assms
proof (induction xs)
  case Nil
  then show ?case by simp
next
  case (Cons y ys)
  then show ?case by (auto simp add: rev_image_eqI)
qed

lemma debounce_of_remove1_other:
  assumes "debounce_of x = []"
  shows "concat (map debounce_of (remove1 x xs)) = concat (map debounce_of xs)"
  using assms by (induction xs) auto

lemma debounce_of_mem:
  "p \<in> set (concat (map debounce_of xs)) \<longleftrightarrow> (\<exists>i. (i, fst p, DebouncedHandleSession (snd p)) \<in> set xs)"
proof (induction xs)
  case Nil
  show ?case by simp
next
  case (Cons x xs)
  obtain i d a where x: "x = (i, d, a)" by (cases x)
  show ?case using Cons by (cases a) (auto simp add: x)
qed

lemma length_concat_remove1:
  assumes "x \<in> set xs"
  shows "length (concat (map f xs)) = length (f x) + length (concat (map f (remove1 x xs)))"
  using assms by (induction xs) auto

lemma debounce_of_remove1_single:
  assumes "concat (map debounce_of xs) = [p]" and "x \<in> set xs" and "debounce_of x = [p]"
  shows "concat (map debounce_of (remove1 x xs)) = []"
  using length_concat_remove1 [OF assms(2), of debounce_of] assms(1,3) by simp

lemma distinct_map_remove1:
  "distinct (map f xs) \<Longrightarrow> distinct (map f (remove1 x xs))"
proof (induction xs)
  case Nil
  then show ?case by simp
next
  case (Cons y ys)
  have "set (remove1 x ys) \<subseteq> set ys" by (rule set_remove1_subset)
  with Cons show ?case by auto
qed

lemma timers_wf_timer_fired:
  assumes "timers_wf st"
  shows "timers_wf (timer_fired hs now i st)"
proof (cases "find (\<lambda>y. fst y = i) (timers st)")
  case None
  with assms show ?thesis by (simp add: timer_fired_def)
next
  case (Some x)
  have sub: "set (remove1 x (timers st)) \<subseteq> set (timers st)" by (rule set_remove1_subset)
  have "timers_wf (st\<lparr>timers := remove1 x (timers st)\<rparr>)"
    using assms sub by (auto simp add: timers_wf_def distinct_map_remove1 list_all_iff)
  then have "timers_wf (fire hs now (snd (snd x)) (st\<lparr>timers := remove1 x (timers st)\<rparr>))"
    by (simp add: timers_wf_def)
  with assms Some show ?thesis by (simp add: timer_fired_def)
qed

lemma timers_wf_fresh:
  assumes "timers_wf st"
  shows "timers_wf (st\<lparr>timers := timers st @ [(next_timer st, d, a)],
                       next_timer := Suc (next_timer st)\<rparr>)"
    and "timers_wf (st\<lparr>timers := timers st @ [(next_timer st, d, a)],
                       next_timer := Suc (next_timer st), timeoutId := Some (next_timer st)\<rparr>)"
proof -
  have below: "\<forall>x \<in> set (timers st). fst x < next_timer st"
    and dist: "distinct (map fst (timers st))"
    and tid: "pred_option (\<lambda>i. i < next_timer st) (timeoutId st)"
    using assms by (simp_all add: timers_wf_def list_all_iff)
  have fresh: "next_timer st \<notin> fst ` set (timers st)"
    using below by auto
  have below': "\<forall>x \<in> set (timers st). fst x < Suc (next_timer st)"
    using below by (simp add: less_Suc_eq)
  have tid': "pred_option (\<lambda>i. i < Suc (next_timer st)) (timeoutId st)"
    using tid by (cases "timeoutId st") (simp_all add: less_Suc_eq)
  show "timers_wf (st\<lparr>timers := timers st @ [(next_timer st, d, a)],
                       next_timer := Suc (next_timer st)\<rparr>)"
    using dist fresh below' tid' by (simp add: timers_wf_def list_all_iff)
  show "timers_wf (st\<lparr>timers := timers st @ [(next_timer st, d, a)],
                       next_timer := Suc (next_timer st), timeoutId := Some (next_timer st)\<rparr>)"
    using dist fresh below' by (simp add: timers_wf_def list_all_iff)
qed

lemma timers_wf_setTimeout:
  assumes "timers_wf st"
  shows "timers_wf (snd (setTimeout now delay a st))"
  using assms
  by (simp add: setTimeout_def timers_wf_fresh)

lemma timers_wf_clearTimeout:
  assumes "timers_wf st"
  shows "timers_wf (clearTimeout tid st)"
  using assms
  by (cases tid; cases "timeoutId st")
    (auto simp add: timers_wf_def clearTimeout_def list_all_iff distinct_map_filter)

lemma timers_wf_flag:
  "timers_wf (st\<lparr>isProcessingPasswordUpdate := b\<rparr>) = timers_wf st"
  "timers_wf (st\<lparr>isPasswordUpdateFlow := b\<rparr>) = timers_wf st"
  "timers_wf (st\<lparr>user := u\<rparr>) = timers_wf st"
  "timers_wf (showToast t st) = timers_wf st"
  by (simp_all add: timers_wf_def showToast_def)

lemma onAuthStateChange_debounced:
  assumes "debounced_event event"
  shows "onAuthStateChange now event session st =
     (let st1 = (if event = SIGNED_IN \<and> isProcessingPasswordUpdate st
                 then st\<lparr>isProcessingPasswordUpdate := False\<rparr> else st);
          st2 = clearTimeout (timeoutId st1) st1
      in st2\<lparr>timers := timers st2 @ [(next_timer st2, now + 100, DebouncedHandleSession session)],
             next_timer := Suc (next_timer st2), timeoutId := Some (next_timer st2)\<rparr>)"
  using assms by (simp add: onAuthStateChange_def debounced_event_def setTimeout_def Let_def)

lemma timers_wf_onAuthStateChange:
  assumes "timers_wf st"
  shows "timers_wf (onAuthStateChange now event session st)"
proof (cases "debounced_event event")
  case True
  let ?st1 = "if event = SIGNED_IN \<and> isProcessingPasswordUpdate st
                 then st\<lparr>isProcessingPasswordUpdate := False\<rparr> else st"
  let ?st2 = "clearTimeout (timeoutId ?st1) ?st1"
  have "timers_wf ?st1" using assms by (simp add: timers_wf_flag)
  then have "timers_wf ?st2" by (rule timers_wf_clearTimeout)
  then have "timers_wf (?st2\<lparr>timers := timers ?st2 @ [(next_timer ?st2, now + 100, DebouncedHandleSession session)],
             next_timer := Suc (next_timer ?st2), timeoutId := Some (next_timer ?st2)\<rparr>)"
    by (rule timers_wf_fresh)
  then show ?thesis
    using onAuthStateChange_debounced [OF True, of now session st] by (simp add: Let_def)
next
  case False
  then consider "event = TOKEN_REFRESHED" | "event = USER_UPDATED" | "event = SIGNED_OUT"
    by (auto simp add: debounced_event_def)
  then show ?thesis
  proof cases
    case 1
    with assms show ?thesis by (simp add: onAuthStateChange_def)
  next
    case 2
    have "timers_wf (st\<lparr>isProcessingPasswordUpdate := True\<rparr>)"
      using assms by (simp add: timers_wf_flag)
    from timers_wf_setTimeout [OF this] 2 show ?thesis by (simp add: onAuthStateChange_def)
  next
    case 3
    with assms show ?thesis by (simp add: onAuthStateChange_def timers_wf_flag)
  qed
qed

lemma timers_wf_do_step:
  assumes "timers_wf st"
  shows "timers_wf (do_step hs b st)"
proof -
  obtain t x where b: "b = (t, x)" by (cases b)
  show ?thesis using assms
    by (cases x) (simp_all add: b timers_wf_onAuthStateChange timers_wf_timer_fired)
qed

section \<open>Bursts of change notifications\<close>

lemma debounce_tracked_empty:
  "pending_debounce st = [] \<Longrightarrow> debounce_tracked st"
  by (simp add: debounce_tracked_def pending_debounce_def list_all_iff)

lemma tracked_cleared:
  assumes "debounce_tracked st"
  shows "concat (map debounce_of (timers (clearTimeout (timeoutId st) st))) = []"
  using assms
  by (auto simp add: debounce_tracked_def clearTimeout_def list_all_iff split: option.splits)

lemma notified_debounced:
  assumes "debounce_tracked st" and "debounced_event event"
  shows "pending_debounce (onAuthStateChange now event session st) = [(now + 100, session)]"
    and "debounce_tracked (onAuthStateChange now event session st)"
    and "passes (onAuthStateChange now event session st) = passes st"
    and "user (onAuthStateChange now event session st) = user st"
    and "shown (onAuthStateChange now event session st) = shown st"
proof -
  let ?st1 = "if event = SIGNED_IN \<and> isProcessingPasswordUpdate st
                 then st\<lparr>isProcessingPasswordUpdate := False\<rparr> else st"
  have t1: "debounce_tracked ?st1" "timers ?st1 = timers st" "timeoutId ?st1 = timeoutId st"
    "passes ?st1 = passes st" "user ?st1 = user st" "shown ?st1 = shown st"
    using assms(1) by (simp_all add: debounce_tracked_def)
  let ?st2 = "clearTimeout (timeoutId ?st1) ?st1"
  have c: "concat (map debounce_of (timers ?st2)) = []"
    using tracked_cleared [OF t1(1)] .
  have p2: "passes ?st2 = passes st" "user ?st2 = user st" "shown ?st2 = shown st"
    using t1(4,5,6) by (simp_all add: clearTimeout_def split: option.splits)
  have eq: "onAuthStateChange now event session st =
      ?st2\<lparr>timers := timers ?st2 @ [(next_timer ?st2, now + 100, DebouncedHandleSession session)],
             next_timer := Suc (next_timer ?st2), timeoutId := Some (next_timer ?st2)\<rparr>"
    using onAuthStateChange_debounced [OF assms(2), of now session st] by (simp add: Let_def)
  show "pending_debounce (onAuthStateChange now event session st) = [(now + 100, session)]"
    unfolding eq pending_debounce_def using c by simp
  show "debounce_tracked (onAuthStateChange now event session st)"
    unfolding eq debounce_tracked_def using c by (simp add: list_all_iff)
  show "passes (onAuthStateChange now event session st) = passes st"
    unfolding eq using p2 by simp
  show "user (onAuthStateChange now event session st) = user st"
    unfolding eq using p2 by simp
  show "shown (onAuthStateChange now event session st) = shown st"
    unfolding eq using p2 by simp
qed

lemma timer_fired_none_due:
  assumes "\<forall>p \<in> set (pending_debounce st). now < fst p" and "debounce_tracked st"
  shows "pending_debounce (timer_fired hs now i st) = pending_debounce st"
    and "debounce_tracked (timer_fired hs now i st)"
    and "passes (timer_fired hs now i st) = passes st"
    and "user (timer_fired hs now i st) = user st"
    and "shown (timer_fired hs now i st) = shown st"
proof -
  have "pending_debounce (timer_fired hs now i st) = pending_debounce st
      \<and> debounce_tracked (timer_fired hs now i st)
      \<and> passes (timer_fired hs now i st) = passes st
      \<and> user (timer_fired hs now i st) = user st
      \<and> shown (timer_fired hs now i st) = shown st"
  proof (cases "find (\<lambda>y. fst y = i) (timers st)")
    case None
    with assms(2) show ?thesis by (simp add: timer_fired_def)
  next
    case (Some x)
    obtain j d a where x: "x = (j, d, a)" by (cases x)
    show ?thesis
    proof (cases "d \<le> now")
      case False
      with Some assms(2) show ?thesis by (simp add: timer_fired_def x due_time_def)
    next
      case True
      have mem: "x \<in> set (timers st)" using find_id(1) [OF Some] .
      have nd: "debounce_of x = []"
      proof (cases a)
        case (DebouncedHandleSession s)
        then have "(d, s) \<in> set (pending_debounce st)"
          unfolding pending_debounce_def debounce_of_mem using mem x by auto
        with assms(1) True show ?thesis by auto
      qed (simp_all add: x)
      let ?st' = "st\<lparr>timers := remove1 x (timers st)\<rparr>"
      have eq: "timer_fired hs now i st = fire hs now a ?st'"
        using Some True by (simp add: timer_fired_def x due_time_def)
      have sub: "set (remove1 x (timers st)) \<subseteq> set (timers st)" by (rule set_remove1_subset)
      have tr: "debounce_tracked ?st'"
        using assms(2) sub by (auto simp add: debounce_tracked_def list_all_iff)
      have pd: "pending_debounce ?st' = pending_debounce st"
        by (simp add: pending_debounce_def debounce_of_remove1_other [OF nd])
      note ff = fire_flag_timer [OF nd [unfolded x], of hs now ?st']
      show ?thesis
        unfolding eq using tr pd ff
        by (simp add: pending_debounce_def debounce_tracked_def)
    qed
  qed
  then show "pending_debounce (timer_fired hs now i st) = pending_debounce st"
    and "debounce_tracked (timer_fired hs now i st)"
    and "passes (timer_fired hs now i st) = passes st"
    and "user (timer_fired hs now i st) = user st"
    and "shown (timer_fired hs now i st) = shown st"
    by simp_all
qed

lemma run_snoc: "run hs (steps @ [b]) st = do_step hs b (run hs steps st)"
  by (simp add: run_def)

lemma timers_wf_run:
  assumes "timers_wf st"
  shows "timers_wf (run hs steps st)"
  using assms by (induction steps rule: rev_induct) (simp_all add: run_def timers_wf_do_step)

lemma notifications_snoc:
  "notifications (steps @ [(t, Notified event session)]) = notifications steps @ [(t, event, session)]"
  "notifications (steps @ [(t, TimerFired i)]) = notifications steps"
  by (simp_all add: notifications_def)

lemma burst_steps:
  assumes "debounce_tracked st" and "\<forall>p \<in> set (pending_debounce st). B \<le> fst p"
    and "\<forall>b \<in> set steps. fst b < B"
    and "\<forall>n \<in> set (notifications steps). debounced_event (fst (snd n)) \<and> B \<le> fst n + 100"
  shows "debounce_tracked (run hs steps st)
       \<and> (\<forall>p \<in> set (pending_debounce (run hs steps st)). B \<le> fst p)
       \<and> passes (run hs steps st) = passes st
       \<and> user (run hs steps st) = user st
       \<and> shown (run hs steps st) = shown st
       \<and> pending_debounce (run hs steps st) =
           (if notifications steps = [] then pending_debounce st
            else [(fst (last (notifications steps)) + 100, snd (snd (last (notifications steps))))])"
  using assms(3,4)
proof (induction steps rule: rev_induct)
  case Nil
  show ?case using assms(1,2) by (simp add: run_def notifications_def)
next
  case (snoc b steps)
  obtain t x where b: "b = (t, x)" by (cases b)
  let ?st = "run hs steps st"
  have prev3: "\<forall>b \<in> set steps. fst b < B" using snoc.prems(1) by simp
  have prev4: "\<forall>n \<in> set (notifications steps). debounced_event (fst (snd n)) \<and> B \<le> fst n + 100"
    using snoc.prems(2) by (simp add: notifications_def)
  note ih = snoc.IH [OF prev3 prev4]
  have tB: "t < B" using snoc.prems(1) by (simp add: b)
  show ?case
  proof (cases x)
    case (Notified event session)
    have ev: "debounced_event event" and late: "B \<le> t + 100"
      using snoc.prems(2) by (simp_all add: b Notified notifications_def)
    have tr: "debounce_tracked ?st" using ih by simp
    note h = notified_debounced [OF tr ev, of t session]
    show ?thesis
      unfolding run_snoc b Notified
      using h ih late by (simp add: notifications_snoc)
  next
    case (TimerFired i)
    have "\<forall>p \<in> set (pending_debounce ?st). B \<le> fst p" using ih by blast
    then have nd: "\<forall>p \<in> set (pending_debounce ?st). t < fst p" using tB by fastforce
    have tr: "debounce_tracked ?st" using ih by simp
    note h = timer_fired_none_due [OF nd tr, of hs i]
    show ?thesis
      unfolding run_snoc b TimerFired
      using h ih by (simp add: notifications_snoc)
  qed
qed

lemma debounce_timer_fires:
  assumes "timers_wf st" and "debounce_tracked st" and "pending_debounce st = [(d, s)]"
    and "d \<le> now"
  shows "\<exists>i. timeoutId st = Some i
           \<and> timer_fired hs now i st =
               run_pass hs now s (st\<lparr>timers := remove1 (i, d, DebouncedHandleSession s) (timers st)\<rparr>)
           \<and> concat (map debounce_of (remove1 (i, d, DebouncedHandleSession s) (timers st))) = []"
proof -
  have "(d, s) \<in> set (concat (map debounce_of (timers st)))"
    using assms(3) by (simp add: pending_debounce_def)
  then obtain i where mem: "(i, d, DebouncedHandleSession s) \<in> set (timers st)"
    unfolding debounce_of_mem by auto
  let ?x = "(i, d, DebouncedHandleSession s)"
  have tid: "timeoutId st = Some i"
    using assms(2) mem by (auto simp add: debounce_tracked_def list_all_iff)
  have "distinct (map fst (timers st))" using assms(1) by (simp add: timers_wf_def)
  from find_distinct_id [OF this mem]
  have f: "find (\<lambda>y. fst y = i) (timers st) = Some ?x" by simp
  have fired: "timer_fired hs now i st = run_pass hs now s (st\<lparr>timers := remove1 ?x (timers st)\<rparr>)"
    using f assms(4) by (simp add: timer_fired_def due_time_def)
  have none: "concat (map debounce_of (remove1 ?x (timers st))) = []"
    using debounce_of_remove1_single [of "timers st" "(d, s)" ?x] assms(3) mem
    by (simp add: pending_debounce_def)
  from tid fired none show ?thesis by blast
qed

text \<open>
  C7. A burst of change notifications, none of them \<^verbatim>\<open>TOKEN_REFRESHED\<close>,
  \<^verbatim>\<open>USER_UPDATED\<close> or \<^verbatim>\<open>SIGNED_OUT\<close>, reaches a provider with no debounce timer pending;
  the burst starts with a notification at time \<open>t1\<close>, and all its steps (timers may try to
  run in between) happen less than 100 ms after \<open>t1\<close>. During the burst no pass runs, and
  the published user and the notifications shown stay as they were; at its end exactly one
  debounce timer is pending, the one \<^verbatim>\<open>timeoutId\<close> names, due 100 ms after the last
  notification. When that timer runs, at any time from then on, one pass is executed on the
  session of the last notification: the published user is what \<^verbatim>\<open>handleSession\<close> returns
  for that session, its notifications are shown, and no debounce timer is left.
\<close>

theorem burst_runs_one_pass:
  assumes "timers_wf st" and "pending_debounce st = []"
    and "steps = (t1, Notified event1 session1) # rest"
    and "\<forall>b \<in> set steps. t1 \<le> fst b \<and> fst b < t1 + 100"
    and "\<forall>n \<in> set (notifications steps). debounced_event (fst (snd n))"
    and "last (notifications steps) = (t_last, event_last, session_last)"
    and "t_last + 100 \<le> t_fire"
  shows "passes (run (pass_of env flag) steps st) = passes st
       \<and> user (run (pass_of env flag) steps st) = user st
       \<and> shown (run (pass_of env flag) steps st) = shown st
       \<and> pending_debounce (run (pass_of env flag) steps st) = [(t_last + 100, session_last)]
       \<and> (\<exists>i. timeoutId (run (pass_of env flag) steps st) = Some i
             \<and> passes (timer_fired (pass_of env flag) t_fire i (run (pass_of env flag) steps st)) =
                 passes st @ [session_last]
             \<and> user (timer_fired (pass_of env flag) t_fire i (run (pass_of env flag) steps st)) =
                 returned (handleSession env flag (int t_fire) session_last)
             \<and> shown (timer_fired (pass_of env flag) t_fire i (run (pass_of env flag) steps st)) =
                 shown st @ toasts_of (effects (handleSession env flag (int t_fire) session_last))
             \<and> pending_debounce
                 (timer_fired (pass_of env flag) t_fire i (run (pass_of env flag) steps st)) = [])"
proof -
  let ?hs = "pass_of env flag"
  let ?st = "run ?hs steps st"
  have tr: "debounce_tracked st" using assms(2) by (rule debounce_tracked_empty)
  have p0: "\<forall>p \<in> set (pending_debounce st). t1 + 100 \<le> fst p" using assms(2) by simp
  have b3: "\<forall>b \<in> set steps. fst b < t1 + 100" using assms(4) by simp
  have sub: "\<forall>n \<in> set (notifications steps). \<exists>x. (fst n, x) \<in> set steps"
    unfolding notifications_def
  proof (induction steps)
    case Nil
    show ?case by simp
  next
    case (Cons b bs)
    obtain t x where b: "b = (t, x)" by (cases b)
    show ?case using Cons by (cases x) (auto simp add: b)
  qed
  have b4: "\<forall>n \<in> set (notifications steps). debounced_event (fst (snd n)) \<and> t1 + 100 \<le> fst n + 100"
  proof
    fix n assume n: "n \<in> set (notifications steps)"
    then obtain x where "(fst n, x) \<in> set steps" using sub by blast
    then have "t1 \<le> fst n" using assms(4) by fastforce
    with n assms(5) show "debounced_event (fst (snd n)) \<and> t1 + 100 \<le> fst n + 100" by simp
  qed
  have ne: "notifications steps \<noteq> []" by (simp add: assms(3) notifications_def)
  from burst_steps [OF tr p0 b3 b4, of ?hs] ne assms(6)
  have tr': "debounce_tracked ?st" and ps: "passes ?st = passes st" and us: "user ?st = user st"
    and sh: "shown ?st = shown st" and pd: "pending_debounce ?st = [(t_last + 100, session_last)]"
    by simp_all
  have wf: "timers_wf ?st" using assms(1) by (rule timers_wf_run)
  from debounce_timer_fires [OF wf tr' pd assms(7), of ?hs]
  obtain i where tid: "timeoutId ?st = Some i"
    and fired: "timer_fired ?hs t_fire i ?st =
        run_pass ?hs t_fire session_last
          (?st\<lparr>timers := remove1 (i, t_last + 100, DebouncedHandleSession session_last) (timers ?st)\<rparr>)"
    and none: "concat (map debounce_of
          (remove1 (i, t_last + 100, DebouncedHandleSession session_last) (timers ?st))) = []"
    by blast
  have 1: "passes (timer_fired ?hs t_fire i ?st) = passes st @ [session_last]"
    unfolding fired by (simp add: ps)
  have 2: "user (timer_fired ?hs t_fire i ?st) = returned (handleSession env flag (int t_fire) session_last)"
    unfolding fired by (rule user_run_pass_handleSession)
  have 3: "shown (timer_fired ?hs t_fire i ?st) =
      shown st @ toasts_of (effects (handleSession env flag (int t_fire) session_last))"
    unfolding fired using sh by (simp add: shown_run_pass) (simp add: pass_of_def)
  have 4: "pending_debounce (timer_fired ?hs t_fire i ?st) = []"
    unfolding fired by (simp add: pending_debounce_def none)
  from ps us sh pd tid 1 2 3 4 show ?thesis by blast
qed

lemma ex_mounted_eq:
  "ex_mounted = initial_provider\<lparr>user := None, isLoading := False, passes := [None]\<rparr>"
  by (simp add: ex_mounted_def getInitialSession_def run_pass_def pass_of_def handleSession_def
      publish_def initial_provider_def)

lemma ex_burst_timeoutId:
  "timeoutId (run hs ex_burst ex_mounted) = Some 4"
  by (simp add: run_def ex_burst_def ex_mounted_eq initial_provider_def onAuthStateChange_def
      setTimeout_def clearTimeout_def timer_fired_def due_time_def Let_def)

lemma ex_last_pass:
  "returned (handleSession ex_env False 209 (Some (ex_session\<lparr>expires_at := None\<rparr>))) = Some ex_citizen"
  by (simp add: handleSession_def refresh_step_def session_expired_def create_profile_def ex_env_def
      found_def failed_def Let_def ex_citizen_def newUser_def authenticatedUser_def js_or_def
      truthy_def)

theorem burst_runs_one_pass_witness:
  "passes (timer_fired (pass_of ex_env False) 209 4 (run (pass_of ex_env False) ex_burst ex_mounted))
     = [None, Some (ex_session\<lparr>expires_at := None\<rparr>)]
   \<and> user (timer_fired (pass_of ex_env False) 209 4 (run (pass_of ex_env False) ex_burst ex_mounted))
     = Some ex_citizen
   \<and> user (run (pass_of ex_env False) ex_burst ex_mounted) = None
   \<and> passes (run (pass_of ex_env False) ex_burst ex_mounted) = [None]"
proof -
  let ?hs = "pass_of ex_env False"
  have 1: "timers_wf ex_mounted"
    by (simp add: ex_mounted_eq initial_provider_def timers_wf_def)
  have 2: "pending_debounce ex_mounted = []"
    by (simp add: ex_mounted_eq initial_provider_def pending_debounce_def)
  have 3: "ex_burst = (10, Notified INITIAL_SESSION None) # tl ex_burst"
    by (simp add: ex_burst_def)
  have 4: "\<forall>b \<in> set ex_burst. 10 \<le> fst b \<and> fst b < 10 + 100"
    by (simp add: ex_burst_def)
  have 5: "\<forall>n \<in> set (notifications ex_burst). debounced_event (fst (snd n))"
    by (simp add: ex_burst_def notifications_def debounced_event_def)
  have 6: "last (notifications ex_burst) = (109, SIGNED_IN, Some (ex_session\<lparr>expires_at := None\<rparr>))"
    by (simp add: ex_burst_def notifications_def)
  have 7: "(109::nat) + 100 \<le> 209" by simp
  have u: "user ex_mounted = None" and p: "passes ex_mounted = [None]"
    by (simp_all add: ex_mounted_eq)
  from burst_runs_one_pass [OF 1 2 3 4 5 6 7, of ex_env False]
  obtain i where i: "timeoutId (run ?hs ex_burst ex_mounted) = Some i"
    and a: "passes (timer_fired ?hs 209 i (run ?hs ex_burst ex_mounted)) =
        passes ex_mounted @ [Some (ex_session\<lparr>expires_at := None\<rparr>)]"
    and b: "user (timer_fired ?hs 209 i (run ?hs ex_burst ex_mounted)) =
        returned (handleSession ex_env False (int 209) (Some (ex_session\<lparr>expires_at := None\<rparr>)))"
    and c: "user (run ?hs ex_burst ex_mounted) = user ex_mounted"
    and d: "passes (run ?hs ex_burst ex_mounted) = passes ex_mounted"
    by blast
  have "i = 4" using i ex_burst_timeoutId [of ?hs] by simp
  with a b c d u p ex_last_pass show ?thesis by simp
qed

section \<open>Sign-out notifications around a password update\<close>

lemma window_open_signed_out:
  assumes "window_open i B st"
  shows "onAuthStateChange t SIGNED_OUT s st = st"
  using assms by (simp add: window_open_def onAuthStateChange_def)

lemma signed_out_after_signed_in:
  "user (onAuthStateChange t' SIGNED_OUT s' (onAuthStateChange t SIGNED_IN s st)) = None"
  by (simp add: onAuthStateChange_def setTimeout_def clearTimeout_def Let_def split: option.split)

lemma window_open_notified:
  assumes "window_open i B st" and "event \<noteq> SIGNED_IN" and "B \<le> t + 2000"
  shows "window_open i B (onAuthStateChange t event s st)"
proof -
  have flag: "isProcessingPasswordUpdate st" and wf: "timers_wf st"
    and mem: "(i, B, ClearProcessingPasswordUpdate) \<in> set (timers st)"
    and tid: "timeoutId st \<noteq> Some i"
    and late: "\<forall>x \<in> set (timers st). \<not> clears_processing x \<or> B \<le> due_time x"
    using assms(1) by (simp_all add: window_open_def list_all_iff)
  have wf': "timers_wf (onAuthStateChange t event s st)"
    using wf by (rule timers_wf_onAuthStateChange)
  have below: "i < next_timer st"
    using wf mem by (auto simp add: timers_wf_def list_all_iff)
  show ?thesis
  proof (cases "debounced_event event")
    case True
    let ?st2 = "clearTimeout (timeoutId st) st"
    have eq: "onAuthStateChange t event s st =
        ?st2\<lparr>timers := timers ?st2 @ [(next_timer ?st2, t + 100, DebouncedHandleSession s)],
             next_timer := Suc (next_timer ?st2), timeoutId := Some (next_timer ?st2)\<rparr>"
      using onAuthStateChange_debounced [OF True, of t s st] assms(2) by (simp add: Let_def)
    have n2: "next_timer ?st2 = next_timer st" and f2: "isProcessingPasswordUpdate ?st2"
      using flag by (simp_all add: clearTimeout_def split: option.split)
    have mem2: "(i, B, ClearProcessingPasswordUpdate) \<in> set (timers ?st2)"
      using mem tid by (auto simp add: clearTimeout_def split: option.split)
    have late2: "\<forall>x \<in> set (timers ?st2). \<not> clears_processing x \<or> B \<le> due_time x"
      using late by (auto simp add: clearTimeout_def split: option.split)
    show ?thesis
      using wf' f2 mem2 late2 below
      unfolding window_open_def eq by (simp add: list_all_iff n2)
  next
    case False
    with assms(2) consider "event = TOKEN_REFRESHED" | "event = USER_UPDATED" | "event = SIGNED_OUT"
      by (auto simp add: debounced_event_def)
    then show ?thesis
    proof cases
      case 1
      with assms(1) show ?thesis by (simp add: onAuthStateChange_def)
    next
      case 2
      show ?thesis
        using wf' [unfolded 2] mem tid late assms(3)
        unfolding window_open_def 2
        by (simp add: onAuthStateChange_def setTimeout_def list_all_iff due_time_def)
    next
      case 3
      with assms(1) show ?thesis by (simp add: window_open_signed_out)
    qed
  qed
qed

lemma window_open_timer_fired:
  assumes "window_open i B st" and "t < B"
  shows "window_open i B (timer_fired hs t j st)"
proof (cases "find (\<lambda>y. fst y = j) (timers st)")
  case None
  with assms(1) show ?thesis by (simp add: timer_fired_def)
next
  case (Some x)
  have flag: "isProcessingPasswordUpdate st" and wf: "timers_wf st"
    and mem: "(i, B, ClearProcessingPasswordUpdate) \<in> set (timers st)"
    and tid: "timeoutId st \<noteq> Some i"
    and late: "\<forall>x \<in> set (timers st). \<not> clears_processing x \<or> B \<le> due_time x"
    using assms(1) by (simp_all add: window_open_def list_all_iff)
  show ?thesis
  proof (cases "due_time x \<le> t")
    case False
    with Some assms(1) show ?thesis by (simp add: timer_fired_def)
  next
    case True
    have xmem: "x \<in> set (timers st)" using find_id(1) [OF Some] .
    have nc: "\<not> clears_processing x" using late xmem True assms(2) by fastforce
    obtain k d a where x: "x = (k, d, a)" by (cases x)
    have a: "a \<noteq> ClearProcessingPasswordUpdate" using nc by (auto simp add: x)
    have ne: "x \<noteq> (i, B, ClearProcessingPasswordUpdate)" using a by (simp add: x)
    let ?st' = "st\<lparr>timers := remove1 x (timers st)\<rparr>"
    have eq: "timer_fired hs t j st = fire hs t a ?st'"
      using Some True by (simp add: timer_fired_def x)
    have wf': "timers_wf (timer_fired hs t j st)" using wf by (rule timers_wf_timer_fired)
    have mem': "(i, B, ClearProcessingPasswordUpdate) \<in> set (remove1 x (timers st))"
      using mem ne by simp
    have sub: "set (remove1 x (timers st)) \<subseteq> set (timers st)" by (rule set_remove1_subset)
    have late': "\<forall>y \<in> set (remove1 x (timers st)). \<not> clears_processing y \<or> B \<le> due_time y"
      using late sub by blast
    show ?thesis
      using wf' mem' late' tid flag a
      unfolding window_open_def eq by (simp add: list_all_iff processing_fire)
  qed
qed

lemma window_open_run:
  assumes "window_open i B st"
    and "\<forall>b \<in> set steps. fst b < B \<and> B \<le> fst b + 2000 \<and> \<not> signed_in b"
  shows "window_open i B (run hs steps st)"
  using assms(2)
proof (induction steps rule: rev_induct)
  case Nil
  show ?case using assms(1) by (simp add: run_def)
next
  case (snoc b steps)
  obtain t x where b: "b = (t, x)" by (cases b)
  have prev: "window_open i B (run hs steps st)" using snoc by simp
  have t: "t < B" "B \<le> t + 2000" and nsi: "\<not> signed_in (t, x)"
    using snoc.prems by (simp_all add: b)
  show ?case
  proof (cases x)
    case (Notified event s)
    have "event \<noteq> SIGNED_IN" using nsi by (auto simp add: Notified)
    from window_open_notified [OF prev this t(2)] show ?thesis
      by (simp add: run_snoc b Notified)
  next
    case (TimerFired j)
    from window_open_timer_fired [OF prev t(1)] show ?thesis
      by (simp add: run_snoc b TimerFired)
  qed
qed

lemma window_timer_clears:
  assumes "window_open i B st" and "B \<le> t"
  shows "\<not> isProcessingPasswordUpdate (timer_fired hs t i st)"
proof -
  have wf: "timers_wf st" and mem: "(i, B, ClearProcessingPasswordUpdate) \<in> set (timers st)"
    using assms(1) by (simp_all add: window_open_def)
  have "distinct (map fst (timers st))" using wf by (simp add: timers_wf_def)
  from find_distinct_id [OF this mem]
  have "find (\<lambda>y. fst y = i) (timers st) = Some (i, B, ClearProcessingPasswordUpdate)" by simp
  then show ?thesis using assms(2) by (simp add: timer_fired_def due_time_def)
qed

lemma update_opens_window:
  assumes "timers_wf st" and "\<not> list_ex clears_processing (timers st)"
    and "updateUserPassword t0 oldPass a1 a2 updated st = (True, st1)"
  shows "window_open (next_timer st) (t0 + 2000) st1" and "isPasswordUpdateFlow st1"
    and "user st1 = user st"
proof -
  let ?st0 = "st\<lparr>isPasswordUpdateFlow := True\<rparr>"
  let ?st1 = "snd (setTimeout t0 3000 ClearPasswordUpdateFlow
                  (showToast (password_toast ''Password Updated''
                     ''Your password has been successfully updated.'' False)
                     (onAuthStateChange t0 USER_UPDATED updated ?st0)))"
  have cp: "change_password t0 a2 updated ?st0 = (True, st1) \<Longrightarrow> st1 = ?st1"
    by (auto simp add: change_password_def password_catch_def split: js_result.splits option.splits)
  have "change_password t0 a2 updated ?st0 = (True, st1)"
    using assms(3)
    by (auto simp add: updateUserPassword_def password_catch_def Let_def
        split: option.splits js_result.splits if_splits)
  then have st1: "st1 = ?st1" by (rule cp)
  have below: "\<forall>x \<in> set (timers st). fst x < next_timer st"
    and dist: "distinct (map fst (timers st))"
    and tid: "pred_option (\<lambda>i. i < next_timer st) (timeoutId st)"
    using assms(1) by (simp_all add: timers_wf_def list_all_iff)
  have fresh: "next_timer st \<notin> fst ` set (timers st)" using below by auto
  have tid': "timeoutId st \<noteq> Some (next_timer st)"
    using tid by (cases "timeoutId st") auto
  have tid'': "pred_option (\<lambda>i. i < Suc (Suc (next_timer st))) (timeoutId st)"
    using tid by (cases "timeoutId st") auto
  have nc: "\<forall>x \<in> set (timers st). \<not> clears_processing x"
    using assms(2) by (simp add: list_ex_iff)
  show "window_open (next_timer st) (t0 + 2000) st1"
    unfolding st1 window_open_def timers_wf_def
    using below dist fresh tid' tid'' nc
    by (auto simp add: onAuthStateChange_def setTimeout_def showToast_def list_all_iff
        due_time_def less_Suc_eq)
  show "isPasswordUpdateFlow st1"
    unfolding st1 by (simp add: onAuthStateChange_def setTimeout_def showToast_def)
  show "user st1 = user st"
    unfolding st1 by (simp add: onAuthStateChange_def setTimeout_def showToast_def)
qed

text \<open>
  One password update at a time. \<^verbatim>\<open>updateUserPassword\<close> succeeds at time \<open>t0\<close>, with no
  timer of an earlier \<^verbatim>\<open>USER_UPDATED\<close> still pending. Then its own flag is set, and for
  the next 2000 ms, whatever notifications other than \<^verbatim>\<open>SIGNED_IN\<close> arrive and whatever
  timers run, a \<^verbatim>\<open>SIGNED_OUT\<close> notification changes nothing. Once the timer of the window
  has run (it cannot before \<open>t0 + 2000\<close>), or once \<^verbatim>\<open>SIGNED_IN\<close> has arrived, the next
  \<^verbatim>\<open>SIGNED_OUT\<close> clears the published user.
\<close>

lemma password_update_window:
  assumes "timers_wf st" and "\<not> list_ex clears_processing (timers st)"
    and "updateUserPassword t0 oldPass a1 a2 updated st = (True, st1)"
    and "\<forall>b \<in> set steps. t0 \<le> fst b \<and> fst b < t0 + 2000 \<and> \<not> signed_in b"
  shows "isPasswordUpdateFlow st1"
    and "onAuthStateChange t SIGNED_OUT s (run hs steps st1) = run hs steps st1"
    and "t0 + 2000 \<le> t_fire \<Longrightarrow>
         user (onAuthStateChange t SIGNED_OUT s
                 (timer_fired hs t_fire (next_timer st) (run hs steps st1))) = None"
    and "user (onAuthStateChange t' SIGNED_OUT s'
                 (onAuthStateChange t SIGNED_IN s (run hs steps st1))) = None"
proof -
  note w = update_opens_window [OF assms(1,2,3)]
  have "\<forall>b \<in> set steps. fst b < t0 + 2000 \<and> t0 + 2000 \<le> fst b + 2000 \<and> \<not> signed_in b"
    using assms(4) by auto
  from window_open_run [OF w(1) this]
  have still: "window_open (next_timer st) (t0 + 2000) (run hs steps st1)" .
  show "isPasswordUpdateFlow st1" by (rule w(2))
  show "onAuthStateChange t SIGNED_OUT s (run hs steps st1) = run hs steps st1"
    using still by (rule window_open_signed_out)
  show "user (onAuthStateChange t SIGNED_OUT s
                 (timer_fired hs t_fire (next_timer st) (run hs steps st1))) = None"
    if "t0 + 2000 \<le> t_fire"
    using window_timer_clears [OF still that, of hs] by (simp add: onAuthStateChange_def)
  show "user (onAuthStateChange t' SIGNED_OUT s'
                 (onAuthStateChange t SIGNED_IN s (run hs steps st1))) = None"
    by (rule signed_out_after_signed_in)
qed

lemma ex_updated_once_eq:
  "updateUserPassword 0 ''old-secret'' (Returns None) (Returns None) (Some ex_session) ex_logged_in =
     (True, ex_logged_in\<lparr>isPasswordUpdateFlow := True, isProcessingPasswordUpdate := True,
        timers := [(0, 2000, ClearProcessingPasswordUpdate), (1, 3000, ClearPasswordUpdateFlow)],
        next_timer := 2,
        shown := [password_toast ''Password Updated''
                    ''Your password has been successfully updated.'' False]\<rparr>)"
  by (simp add: updateUserPassword_def change_password_def onAuthStateChange_def setTimeout_def
      showToast_def ex_logged_in_def initial_provider_def Let_def)

lemma ex_updated_twice_eq:
  "updateUserPassword 1500 ''newer-secret'' (Returns None) (Returns None) (Some ex_session)
       ex_updated_once =
     (True, ex_logged_in\<lparr>isPasswordUpdateFlow := True, isProcessingPasswordUpdate := True,
        timers := [(0, 2000, ClearProcessingPasswordUpdate), (1, 3000, ClearPasswordUpdateFlow),
                   (2, 3500, ClearProcessingPasswordUpdate), (3, 4500, ClearPasswordUpdateFlow)],
        next_timer := 4,
        shown := [password_toast ''Password Updated''
                    ''Your password has been successfully updated.'' False,
                  password_toast ''Password Updated''
                    ''Your password has been successfully updated.'' False]\<rparr>)"
  by (simp add: ex_updated_once_def ex_updated_once_eq)
    (simp add: updateUserPassword_def change_password_def onAuthStateChange_def setTimeout_def
      showToast_def ex_logged_in_def initial_provider_def Let_def)

lemma ex_updated_late_eq:
  "updateUserPassword 1500 ''old-secret'' (Returns None) (Returns None) (Some ex_session) ex_logged_in =
     (True, ex_logged_in\<lparr>isPasswordUpdateFlow := True, isProcessingPasswordUpdate := True,
        timers := [(0, 3500, ClearProcessingPasswordUpdate), (1, 4500, ClearPasswordUpdateFlow)],
        next_timer := 2,
        shown := [password_toast ''Password Updated''
                    ''Your password has been successfully updated.'' False]\<rparr>)"
  by (simp add: updateUserPassword_def change_password_def onAuthStateChange_def setTimeout_def
      showToast_def ex_logged_in_def initial_provider_def Let_def)

text \<open>
  C3, at a concrete input. The logged-in user changes the password at time 0 and again at
  1500 ms; both calls succeed. The second call has opened its window: both flags are set.
  At 2000 ms the timer of the first call runs and clears the flag of the subscription, and
  the \<^verbatim>\<open>SIGNED_OUT\<close> notification at 2100 ms, 600 ms after the second success, clears the
  published user, while \<^verbatim>\<open>isPasswordUpdateFlow\<close> is still set and the timer of the second
  window is still pending. After the second call alone the same notification leaves the
  user in place.
\<close>

theorem stale_timer_ends_the_window_early:
  "fst (updateUserPassword 0 ''old-secret'' (Returns None) (Returns None) (Some ex_session)
          ex_logged_in)
   \<and> fst (updateUserPassword 1500 ''newer-secret'' (Returns None) (Returns None) (Some ex_session)
          ex_updated_once)
   \<and> user ex_updated_twice = Some ex_citizen
   \<and> isProcessingPasswordUpdate ex_updated_twice
   \<and> user (run (pass_of ex_env False)
        [(2000, TimerFired 0), (2100, Notified SIGNED_OUT None)] ex_updated_twice) = None
   \<and> isPasswordUpdateFlow (run (pass_of ex_env False)
        [(2000, TimerFired 0), (2100, Notified SIGNED_OUT None)] ex_updated_twice)
   \<and> timers (run (pass_of ex_env False)
        [(2000, TimerFired 0), (2100, Notified SIGNED_OUT None)] ex_updated_twice) =
       [(1, 3000, ClearPasswordUpdateFlow), (2, 3500, ClearProcessingPasswordUpdate),
        (3, 4500, ClearPasswordUpdateFlow)]
   \<and> user (run (pass_of ex_env False) [(2100, Notified SIGNED_OUT None)] ex_updated_late)
       = Some ex_citizen"
proof -
  let ?hs = "pass_of ex_env False"
  let ?steps = "[(2000, TimerFired 0), (2100, Notified SIGNED_OUT None)]"
  have u: "user ex_logged_in = Some ex_citizen"
    by (simp add: ex_logged_in_def)
  have 1: "fst (updateUserPassword 0 ''old-secret'' (Returns None) (Returns None) (Some ex_session)
          ex_logged_in)"
    by (simp add: ex_updated_once_eq)
  have 2: "fst (updateUserPassword 1500 ''newer-secret'' (Returns None) (Returns None)
          (Some ex_session) ex_updated_once)"
    by (simp add: ex_updated_twice_eq)
  have tw: "ex_updated_twice = ex_logged_in\<lparr>isPasswordUpdateFlow := True,
        isProcessingPasswordUpdate := True,
        timers := [(0, 2000, ClearProcessingPasswordUpdate), (1, 3000, ClearPasswordUpdateFlow),
                   (2, 3500, ClearProcessingPasswordUpdate), (3, 4500, ClearPasswordUpdateFlow)],
        next_timer := 4,
        shown := [password_toast ''Password Updated''
                    ''Your password has been successfully updated.'' False,
                  password_toast ''Password Updated''
                    ''Your password has been successfully updated.'' False]\<rparr>"
    by (simp add: ex_updated_twice_def ex_updated_twice_eq)
  have la: "ex_updated_late = ex_logged_in\<lparr>isPasswordUpdateFlow := True,
        isProcessingPasswordUpdate := True,
        timers := [(0, 3500, ClearProcessingPasswordUpdate), (1, 4500, ClearPasswordUpdateFlow)],
        next_timer := 2,
        shown := [password_toast ''Password Updated''
                    ''Your password has been successfully updated.'' False]\<rparr>"
    by (simp add: ex_updated_late_def ex_updated_late_eq)
  have 3: "user ex_updated_twice = Some ex_citizen" and 4: "isProcessingPasswordUpdate ex_updated_twice"
    by (simp_all add: tw u)
  have r: "run ?hs ?steps ex_updated_twice =
      ex_updated_twice\<lparr>isProcessingPasswordUpdate := False, user := None,
        timers := [(1, 3000, ClearPasswordUpdateFlow), (2, 3500, ClearProcessingPasswordUpdate),
                   (3, 4500, ClearPasswordUpdateFlow)]\<rparr>"
    by (simp add: run_def timer_fired_def due_time_def onAuthStateChange_def tw)
  have 5: "user (run ?hs ?steps ex_updated_twice) = None"
    and 6: "isPasswordUpdateFlow (run ?hs ?steps ex_updated_twice)"
    and 7: "timers (run ?hs ?steps ex_updated_twice) =
       [(1, 3000, ClearPasswordUpdateFlow), (2, 3500, ClearProcessingPasswordUpdate),
        (3, 4500, ClearPasswordUpdateFlow)]"
    by (simp_all add: r) (simp add: tw)
  have 8: "user (run ?hs [(2100, Notified SIGNED_OUT None)] ex_updated_late) = Some ex_citizen"
    by (simp add: run_def onAuthStateChange_def la u)
  from 1 2 3 4 5 6 7 8 show ?thesis by (intro conjI)
qed

end
